theory Spec2Isabelle
  imports Complex_Main "HOL-Library.Word"
begin

section \<open>The OpenPose Wrapper: data model\<close>

text \<open>
  The development follows \<^verbatim>\<open>include/openpose/wrapper/wrapper.hpp\<close>. The class
  \<^verbatim>\<open>Wrapper\<close> owns a thread manager and a set of worker slots; \<^verbatim>\<open>configure\<close>
  fills the slots, \<^verbatim>\<open>configureThreadManager\<close> (run by \<^verbatim>\<open>start\<close> and
  \<^verbatim>\<open>exec\<close>) turns them into the stage graph, handing every stage to the thread
  manager with a thread id and a pair of queue indices.
\<close>

subsection \<open>Enumerations and errors\<close>

text \<open>
  The enumerations are declared in headers outside this file; the constructors are the
  names the wrapper uses.
\<close>

datatype ThreadManagerMode = Asynchronous | AsynchronousIn | AsynchronousOut | Synchronous

datatype ScaleMode =
  InputResolution | NetOutputResolution | OutputResolution | ZeroToOne | PlusMinusOne | UnsignedChar

datatype HeatMapType = Parts | Background | PAFs

text \<open>
  \<^verbatim>\<open>error(message, line, function, file)\<close> throws; every \<^verbatim>\<open>catch\<close> block of the class
  passes the exception on through \<^verbatim>\<open>error(e.what(), ...)\<close>. The specification calls the
  exception a ConfigurationError. The model keeps the message of the first throw and leaves
  the source positions out.
\<close>

datatype error = ConfigurationError string

type_synonym 'a result = "error + 'a"

subsection \<open>Workers\<close>

text \<open>
  A \<^verbatim>\<open>TWorker\<close> is a shared pointer to a worker object: \<open>None\<close> is \<^verbatim>\<open>nullptr\<close>. The
  objects the wrapper creates with \<^verbatim>\<open>std::make_shared\<close> are told apart by their class
  (and, for the per-GPU workers, by the replica index); the objects the caller hands in through
  \<^verbatim>\<open>setWorkerInput\<close>, \<^verbatim>\<open>setWorkerPostProcessing\<close> and \<^verbatim>\<open>setWorkerOutput\<close> are
  \<open>UserWorker\<close> values, distinct from every object the wrapper allocates itself. The
  constructor arguments of the workers are not carried: the graph builder never looks inside
  a worker.
\<close>

datatype 'u Worker =
    UserWorker 'u
  | WDatumProducer
  | WIdGenerator
  | WCvMatToOpInput
  | WCvMatToOpOutput
  | WPoseExtractor nat
  | WFaceExtractor nat
  | WHandExtractor nat
  | WPoseRenderer nat
  | WHandRenderer nat
  | WFaceRenderer nat
  | WQueueOrderer
  | WOpOutputToCvMat
  | WKeyPointScaler
  | WPoseSaver
  | WPoseJsonSaver
  | WPoseJsonCocoSaver
  | WImageSaver
  | WVideoSaver
  | WHeatMapSaver
  | WGuiInfoAdder
  | WGui

type_synonym 'u TWorker = "'u Worker option"

subsection \<open>The thread manager, as far as the wrapper drives it\<close>

text \<open>
  One call \<^verbatim>\<open>mThreadManager.add(threadId, workers, queueInId, queueOutId)\<close>. The thread
  id is the value of the argument expression, which has the type of \<^verbatim>\<open>mThreadId\<close>
  (\<^verbatim>\<open>unsigned int\<close>, 32 bits); the queue indices are \<^verbatim>\<open>unsigned long long\<close>
  (\<^verbatim>\<open>auto queueIn = 0ull\<close>).
\<close>

record 'u Stage =
  threadId :: "32 word"
  units :: "'u TWorker list"
  queueInId :: "64 word"
  queueOutId :: "64 word"

text \<open>
  Modelled from the spec: the bounded channel of section 3 (the class \<^verbatim>\<open>Queue\<close> is not
  part of this file): a capacity, the queued items in FIFO order, and the closed flag.
\<close>

record 'd Channel =
  capacity :: nat
  items :: "'d list"
  closed :: bool

text \<open>
  Modelled from the spec: the scheduler of sections 3 and 4.2 (the class
  \<^verbatim>\<open>ThreadManager\<close> is not part of this file): the stages in the order in which they were
  added, and the channels, the first being the ingress and the last the egress channel.
\<close>

record ('u, 'd) ThreadManager =
  mThreadWorkerQueues :: "'u Stage list"
  mTQueues :: "'d Channel list"

definition tm_reset :: "('u, 'd) ThreadManager \<Rightarrow> ('u, 'd) ThreadManager" where
  "tm_reset tm = tm\<lparr>mThreadWorkerQueues := [], mTQueues := []\<rparr>"

text \<open>
  Modelled from the spec: the two messages of \<open>addStage\<close>. The specification fixes the kind
  of the error, a ConfigurationError, and not its text; the texts here tell the two violations
  apart.
\<close>

definition msgChannelOrder :: string where
  "msgChannelOrder = ''The input channel index must be smaller than the output channel index.''"

definition msgThreadOrder :: string where
  "msgThreadOrder = ''Thread ids must be assigned in non-decreasing order.''"

text \<open>
  The operation \<^verbatim>\<open>add\<close> of a thread manager: it gets the thread id, the workers, the two
  queue indices and the thread manager, and gives back its error, if it raises, and the thread
  manager afterwards.
\<close>

type_synonym ('u, 'd) tmAdd =
  "32 word \<Rightarrow> 'u TWorker list \<Rightarrow> 64 word \<Rightarrow> 64 word \<Rightarrow> ('u, 'd) ThreadManager
    \<Rightarrow> unit result \<times> ('u, 'd) ThreadManager"

text \<open>
  Modelled from the spec: \<open>addStage\<close> of section 4.2 (\<^verbatim>\<open>ThreadManager::add\<close> is not part
  of this file). It validates that the input channel index is smaller than the output channel
  index and that the thread id is not smaller than the thread id of the stage added before,
  and fails with a ConfigurationError otherwise, leaving the graph as it is; a valid stage is
  appended to the graph. The indices and the thread id are compared as the unsigned numbers
  they are.
\<close>

definition tm_add :: "('u, 'd) tmAdd" where
  "tm_add tid ws qIn qOut tm =
     (if \<not> qIn < qOut then (Inl (ConfigurationError msgChannelOrder), tm)
      else if mThreadWorkerQueues tm \<noteq> [] \<and> tid < threadId (last (mThreadWorkerQueues tm))
        then (Inl (ConfigurationError msgThreadOrder), tm)
      else (Inr (),
            tm\<lparr>mThreadWorkerQueues := mThreadWorkerQueues tm @
              [\<lparr>threadId = tid, units = ws, queueInId = qIn, queueOutId = qOut\<rparr>]\<rparr>))"

subsection \<open>The configuration structs\<close>

text \<open>
  Only the members that \<^verbatim>\<open>configure\<close> reads to decide something are fields here; the
  others are passed on to constructors of workers. The \<^verbatim>\<open>float\<close> and \<^verbatim>\<open>double\<close>
  members are only compared with constants; they are real numbers here (a NaN fails every
  comparison and so passes the checks as a value in range does). The \<^verbatim>\<open>int\<close> members
  \<^verbatim>\<open>gpuNumber\<close> and \<^verbatim>\<open>scalesNumber\<close> are only compared and counted up to; they are
  integers here.
\<close>

text \<open>
  A \<^verbatim>\<open>cv::Size\<close> has two \<^verbatim>\<open>int\<close> members of 32 bits, read as signed numbers by
  \<open>sint\<close>. \<^verbatim>\<open>area()\<close> is their product, again an \<^verbatim>\<open>int\<close>: a product that does
  not fit into 32 bits wraps around, as it does in the compiled code.
\<close>

record Size =
  width :: "32 word"
  height :: "32 word"

definition area :: "Size \<Rightarrow> 32 word" where
  "area s = width s * height s"

record WrapperStructPose =
  netInputSize :: Size
  outputSize :: Size
  poseScaleMode :: ScaleMode
  gpuNumber :: int
  scalesNumber :: int
  scaleGap :: real
  renderOutput :: bool
  alphaPose :: real
  alphaHeatMap :: real
  heatMapTypes :: "HeatMapType list"
  heatMapScaleMode :: ScaleMode

record WrapperStructFace =
  extractAndRenderFace :: bool

record WrapperStructHand =
  extractAndRenderHands :: bool

text \<open>
  The producer behind \<^verbatim>\<open>producerSharedPtr\<close>: the frame size it reports, already cast to
  \<^verbatim>\<open>int\<close>.
\<close>

record Producer =
  frameWidth :: "32 word"
  frameHeight :: "32 word"

record WrapperStructInput =
  producerSharedPtr :: "Producer option"
  realTimeProcessing :: bool
  framesRepeat :: bool

record WrapperStructOutput =
  displayGui :: bool
  guiVerbose :: bool
  writePose :: string
  writePoseJson :: string
  writeCocoJson :: string
  writeImages :: string
  writeVideo :: string
  writeHeatMaps :: string

subsection \<open>The wrapper object\<close>

record ('u, 'd) Wrapper =
  mThreadManagerMode :: ThreadManagerMode
  spVideoSeek :: "bool \<times> int"
  mThreadManager :: "('u, 'd) ThreadManager"
  mGpuNumber :: int
  mUserInputWsOnNewThread :: bool
  mUserPostProcessingWsOnNewThread :: bool
  mUserOutputWsOnNewThread :: bool
  mThreadId :: "32 word"
  mMultiThreadEnabled :: bool
  mUserInputWs :: "'u TWorker list"
  wDatumProducer :: "'u TWorker"
  spWIdGenerator :: "'u TWorker"
  spWCvMatToOpInput :: "'u TWorker"
  spWCvMatToOpOutput :: "'u TWorker"
  spWPoses :: "'u TWorker list list"
  mPostProcessingWs :: "'u TWorker list"
  mUserPostProcessingWs :: "'u TWorker list"
  mOutputWs :: "'u TWorker list"
  spWGui :: "'u TWorker"
  mUserOutputWs :: "'u TWorker list"

text \<open>
  The constructor initialises the mode, the seek flags, the thread manager and
  \<^verbatim>\<open>mMultiThreadEnabled\<close>; the vectors start empty and the pointers null. The members it
  leaves uninitialised (\<^verbatim>\<open>mGpuNumber\<close>, the three placement flags, \<^verbatim>\<open>mThreadId\<close>) hold
  whatever was in memory: they are arguments here.
\<close>

definition Wrapper_new ::
  "ThreadManagerMode \<Rightarrow> int \<Rightarrow> bool \<Rightarrow> bool \<Rightarrow> bool \<Rightarrow> 32 word \<Rightarrow> ('u, 'd) Wrapper" where
  "Wrapper_new threadManagerMode gpu f1 f2 f3 tid =
     \<lparr>mThreadManagerMode = threadManagerMode,
      spVideoSeek = (False, 0),
      mThreadManager = \<lparr>mThreadWorkerQueues = [], mTQueues = []\<rparr>,
      mGpuNumber = gpu,
      mUserInputWsOnNewThread = f1,
      mUserPostProcessingWsOnNewThread = f2,
      mUserOutputWsOnNewThread = f3,
      mThreadId = tid,
      mMultiThreadEnabled = True,
      mUserInputWs = [],
      wDatumProducer = None,
      spWIdGenerator = None,
      spWCvMatToOpInput = None,
      spWCvMatToOpOutput = None,
      spWPoses = [],
      mPostProcessingWs = [],
      mUserPostProcessingWs = [],
      mOutputWs = [],
      spWGui = None,
      mUserOutputWs = []\<rparr>"

definition disableMultiThreading :: "('u, 'd) Wrapper \<Rightarrow> ('u, 'd) Wrapper" where
  "disableMultiThreading w = w\<lparr>mMultiThreadEnabled := False\<rparr>"

subsection \<open>User workers\<close>

definition msgNullWorker :: string where
  "msgNullWorker = ''Your worker is a nullptr.''"

text \<open>
  The three setters clear the slot first and test the pointer afterwards, so a null worker
  leaves the slot empty when the exception leaves the function.
\<close>

definition setWorkerInput ::
  "'u option \<Rightarrow> bool \<Rightarrow> ('u, 'd) Wrapper \<Rightarrow> unit result \<times> ('u, 'd) Wrapper" where
  "setWorkerInput worker workerOnNewThread w =
     (let w1 = w\<lparr>mUserInputWs := []\<rparr> in
      case worker of
        None \<Rightarrow> (Inl (ConfigurationError msgNullWorker), w1)
      | Some u \<Rightarrow>
          (Inr (), w1\<lparr>mUserInputWs := mUserInputWs w1 @ [Some (UserWorker u)],
                       mUserInputWsOnNewThread := workerOnNewThread\<rparr>))"

definition setWorkerPostProcessing ::
  "'u option \<Rightarrow> bool \<Rightarrow> ('u, 'd) Wrapper \<Rightarrow> unit result \<times> ('u, 'd) Wrapper" where
  "setWorkerPostProcessing worker workerOnNewThread w =
     (let w1 = w\<lparr>mUserPostProcessingWs := []\<rparr> in
      case worker of
        None \<Rightarrow> (Inl (ConfigurationError msgNullWorker), w1)
      | Some u \<Rightarrow>
          (Inr (), w1\<lparr>mUserPostProcessingWs := mUserPostProcessingWs w1 @ [Some (UserWorker u)],
                       mUserPostProcessingWsOnNewThread := workerOnNewThread\<rparr>))"

definition setWorkerOutput ::
  "'u option \<Rightarrow> bool \<Rightarrow> ('u, 'd) Wrapper \<Rightarrow> unit result \<times> ('u, 'd) Wrapper" where
  "setWorkerOutput worker workerOnNewThread w =
     (let w1 = w\<lparr>mUserOutputWs := []\<rparr> in
      case worker of
        None \<Rightarrow> (Inl (ConfigurationError msgNullWorker), w1)
      | Some u \<Rightarrow>
          (Inr (), w1\<lparr>mUserOutputWs := mUserOutputWs w1 @ [Some (UserWorker u)],
                       mUserOutputWsOnNewThread := workerOnNewThread\<rparr>))"

subsection \<open>Messages of the errors\<close>

definition msgEmplace :: string where
  "msgEmplace = ''Emplace cannot be called if an input worker was already selected.''"

definition msgPush :: string where
  "msgPush = ''Push cannot be called if an input worker was already selected.''"

definition msgPop :: string where
  "msgPop = ''Pop cannot be called if an output worker was already selected.''"

definition msgConfigureFirst :: string where
  "msgConfigureFirst = ''Configure the Wrapper class before calling `start()`.''"

definition msgOneProducer :: string where
  "msgOneProducer = ''You need to have 1 and only 1 producer selected. You can introduce your own producer by using setWorkerInput() or use the OpenPose default producer by configuring it in the configure function) or use the ThreadManagerMode::Asynchronous(In) mode.''"

definition msgNoOutput :: string where
  "msgNoOutput = ''No output selected.''"

definition msgNoInput :: string where
  "msgNoInput = ''No input selected.''"

subsection \<open>Boundary ports\<close>

text \<open>
  The six boundary operations test the user worker slot and then forward to the operation of
  the same name of the thread manager. That operation is outside this file: it is the first
  argument here. It gets the item and the thread manager and gives back its result (or its
  error) and the thread manager afterwards. A pop gives \<open>Some\<close> item for \<^verbatim>\<open>true\<close>
  (the item stored in the reference argument) and \<open>None\<close> for \<^verbatim>\<open>false\<close>.
\<close>

type_synonym ('u, 'd) tmPush =
  "'d \<Rightarrow> ('u, 'd) ThreadManager \<Rightarrow> bool result \<times> ('u, 'd) ThreadManager"

type_synonym ('u, 'd) tmPop =
  "('u, 'd) ThreadManager \<Rightarrow> 'd option result \<times> ('u, 'd) ThreadManager"

definition tryEmplace ::
  "('u, 'd) tmPush \<Rightarrow> 'd \<Rightarrow> ('u, 'd) Wrapper \<Rightarrow> bool result \<times> ('u, 'd) Wrapper" where
  "tryEmplace tmTryEmplace tDatums w =
     (if mUserInputWs w \<noteq> [] then (Inl (ConfigurationError msgEmplace), w)
      else (let (r, tm) = tmTryEmplace tDatums (mThreadManager w)
            in (r, w\<lparr>mThreadManager := tm\<rparr>)))"

definition waitAndEmplace ::
  "('u, 'd) tmPush \<Rightarrow> 'd \<Rightarrow> ('u, 'd) Wrapper \<Rightarrow> bool result \<times> ('u, 'd) Wrapper" where
  "waitAndEmplace tmWaitAndEmplace tDatums w =
     (if mUserInputWs w \<noteq> [] then (Inl (ConfigurationError msgEmplace), w)
      else (let (r, tm) = tmWaitAndEmplace tDatums (mThreadManager w)
            in (r, w\<lparr>mThreadManager := tm\<rparr>)))"

definition tryPush ::
  "('u, 'd) tmPush \<Rightarrow> 'd \<Rightarrow> ('u, 'd) Wrapper \<Rightarrow> bool result \<times> ('u, 'd) Wrapper" where
  "tryPush tmTryPush tDatums w =
     (if mUserInputWs w \<noteq> [] then (Inl (ConfigurationError msgPush), w)
      else (let (r, tm) = tmTryPush tDatums (mThreadManager w)
            in (r, w\<lparr>mThreadManager := tm\<rparr>)))"

definition waitAndPush ::
  "('u, 'd) tmPush \<Rightarrow> 'd \<Rightarrow> ('u, 'd) Wrapper \<Rightarrow> bool result \<times> ('u, 'd) Wrapper" where
  "waitAndPush tmWaitAndPush tDatums w =
     (if mUserInputWs w \<noteq> [] then (Inl (ConfigurationError msgPush), w)
      else (let (r, tm) = tmWaitAndPush tDatums (mThreadManager w)
            in (r, w\<lparr>mThreadManager := tm\<rparr>)))"

definition tryPop ::
  "('u, 'd) tmPop \<Rightarrow> ('u, 'd) Wrapper \<Rightarrow> 'd option result \<times> ('u, 'd) Wrapper" where
  "tryPop tmTryPop w =
     (if mUserOutputWs w \<noteq> [] then (Inl (ConfigurationError msgPop), w)
      else (let (r, tm) = tmTryPop (mThreadManager w)
            in (r, w\<lparr>mThreadManager := tm\<rparr>)))"

definition waitAndPop ::
  "('u, 'd) tmPop \<Rightarrow> ('u, 'd) Wrapper \<Rightarrow> 'd option result \<times> ('u, 'd) Wrapper" where
  "waitAndPop tmWaitAndPop w =
     (if mUserOutputWs w \<noteq> [] then (Inl (ConfigurationError msgPop), w)
      else (let (r, tm) = tmWaitAndPop (mThreadManager w)
            in (r, w\<lparr>mThreadManager := tm\<rparr>)))"

text \<open>
  Modelled from the spec: the non-blocking operations of a bounded channel (section 4.1; the
  class \<^verbatim>\<open>Queue\<close> is not part of this file). \<open>tryPush\<close> is false if the channel is full
  or closed; \<open>tryPop\<close> takes the oldest item, also from a closed channel.
\<close>

definition channel_tryPush :: "'d \<Rightarrow> 'd Channel \<Rightarrow> bool \<times> 'd Channel" where
  "channel_tryPush x c =
     (if closed c \<or> capacity c \<le> length (items c) then (False, c)
      else (True, c\<lparr>items := items c @ [x]\<rparr>))"

definition channel_tryPop :: "'d Channel \<Rightarrow> 'd option \<times> 'd Channel" where
  "channel_tryPop c =
     (case items c of [] \<Rightarrow> (None, c) | x # xs \<Rightarrow> (Some x, c\<lparr>items := xs\<rparr>))"

text \<open>
  Modelled from the spec: the thread manager's non-blocking boundary operations (section 4.5;
  the class \<^verbatim>\<open>ThreadManager\<close> is not part of this file). They forward to the first
  channel's \<open>tryPush\<close> and to the last channel's \<open>tryPop\<close>. With no channel (a wrapper
  that is not running) they return false, as the comments on \<^verbatim>\<open>tryEmplace\<close> and
  \<^verbatim>\<open>tryPop\<close> in the class declaration say.
\<close>

definition tm_tryPush :: "('u, 'd) tmPush" where
  "tm_tryPush x tm =
     (case mTQueues tm of
        [] \<Rightarrow> (Inr False, tm)
      | c # cs \<Rightarrow> (let (b, c') = channel_tryPush x c in (Inr b, tm\<lparr>mTQueues := c' # cs\<rparr>)))"

definition tm_tryPop :: "('u, 'd) tmPop" where
  "tm_tryPop tm =
     (if mTQueues tm = [] then (Inr None, tm)
      else (let (r, c') = channel_tryPop (last (mTQueues tm))
            in (Inr r, tm\<lparr>mTQueues := butlast (mTQueues tm) @ [c']\<rparr>)))"

subsection \<open>Reset\<close>

definition reset :: "('u, 'd) Wrapper \<Rightarrow> ('u, 'd) Wrapper" where
  "reset w =
     w\<lparr>mThreadManager := tm_reset (mThreadManager w),
       mThreadId := 0,
       mUserInputWs := [],
       wDatumProducer := None,
       spWCvMatToOpInput := None,
       spWCvMatToOpOutput := None,
       spWPoses := [],
       mPostProcessingWs := [],
       mUserPostProcessingWs := [],
       mOutputWs := [],
       spWGui := None,
       mUserOutputWs := []\<rparr>"

subsection \<open>Building the stage graph\<close>

definition mergeWorkers :: "'u TWorker list \<Rightarrow> 'u TWorker list \<Rightarrow> 'u TWorker list" where
  "mergeWorkers workersA workersB =
     foldl (\<lambda>workersToReturn worker. workersToReturn @ [worker]) workersA workersB"

definition threadIdPP :: "('u, 'd) Wrapper \<Rightarrow> 32 word \<times> ('u, 'd) Wrapper" where
  "threadIdPP w =
     (let w1 = (if mMultiThreadEnabled w then w\<lparr>mThreadId := mThreadId w + 1\<rparr> else w)
      in (mThreadId w1, w1))"

text \<open>
  A call \<^verbatim>\<open>mThreadManager.add(...)\<close>. The operation of the thread manager is outside this
  file and is the first argument, as for the boundary ports. When it raises, the exception
  leaves \<^verbatim>\<open>configureThreadManager\<close> (the \<^verbatim>\<open>catch\<close> block passes it on).
\<close>

definition mThreadManager_add ::
  "('u, 'd) tmAdd \<Rightarrow> 32 word \<Rightarrow> 'u TWorker list \<Rightarrow> 64 word \<Rightarrow> 64 word \<Rightarrow> ('u, 'd) Wrapper
    \<Rightarrow> unit result \<times> ('u, 'd) Wrapper" where
  "mThreadManager_add tmAdd tid ws qIn qOut w =
     (let (r, tm) = tmAdd tid ws qIn qOut (mThreadManager w)
      in (r, w\<lparr>mThreadManager := tm\<rparr>))"

text \<open>
  The state of \<^verbatim>\<open>configureThreadManager\<close> while it builds the graph: the wrapper and the
  local counters \<^verbatim>\<open>queueIn\<close> and \<^verbatim>\<open>queueOut\<close>. A group of statements either throws,
  which leaves an error and the wrapper as it is at the throw, or hands the state on to the
  statements after it.
\<close>

type_synonym ('u, 'd) builder = "('u, 'd) Wrapper \<times> 64 word \<times> 64 word"

type_synonym ('u, 'd) built = "error \<times> ('u, 'd) Wrapper + ('u, 'd) builder"

definition thenStage ::
  "('u, 'd) built \<Rightarrow> (('u, 'd) builder \<Rightarrow> ('u, 'd) built) \<Rightarrow> ('u, 'd) built" where
  "thenStage r f = (case r of Inl thrown \<Rightarrow> Inl thrown | Inr b \<Rightarrow> f b)"

text \<open>
  The statement pair that most stages are added with:
  \<^verbatim>\<open>mThreadManager.add(mThreadId, workers, queueIn++, queueOut++); threadIdPP();\<close>
\<close>

definition addOnOwnThread ::
  "('u, 'd) tmAdd \<Rightarrow> 'u TWorker list \<Rightarrow> ('u, 'd) builder \<Rightarrow> ('u, 'd) built" where
  "addOnOwnThread tmAdd ws b =
     (case b of (w, queueIn, queueOut) \<Rightarrow>
        (case mThreadManager_add tmAdd (mThreadId w) ws queueIn queueOut w of
           (Inl e, w1) \<Rightarrow> Inl (e, w1)
         | (Inr u, w1) \<Rightarrow> Inr (snd (threadIdPP w1), queueIn + 1, queueOut + 1)))"

text \<open>Lines 930 to 955: the producer side and the id generator.\<close>

definition inputWorkersAux :: "('u, 'd) Wrapper \<Rightarrow> 'u TWorker list result" where
  "inputWorkersAux w =
     (if mUserInputWs w \<noteq> [] then Inr (mergeWorkers [] (mUserInputWs w))
      else if wDatumProducer w \<noteq> None then Inr (mergeWorkers [] [wDatumProducer w])
      else if mThreadManagerMode w \<noteq> Asynchronous \<and> mThreadManagerMode w \<noteq> AsynchronousIn
        then Inl (ConfigurationError msgNoInput)
      else Inr [])"

definition addInputStages :: "('u, 'd) tmAdd \<Rightarrow> ('u, 'd) builder \<Rightarrow> ('u, 'd) built" where
  "addInputStages tmAdd b =
     (case b of (w, queueIn, queueOut) \<Rightarrow>
        if mUserInputWs w \<noteq> [] \<and> mUserInputWsOnNewThread w then
          thenStage (addOnOwnThread tmAdd (mUserInputWs w) (w, queueIn, queueOut))
            (\<lambda>(w1, queueIn1, queueOut1).
               addOnOwnThread tmAdd
                 [spWIdGenerator w1, spWCvMatToOpInput w1, spWCvMatToOpOutput w1]
                 (w1, queueIn1, queueOut1))
        else
          (case inputWorkersAux w of
             Inl e \<Rightarrow> Inl (e, w)
           | Inr workersAux \<Rightarrow>
               addOnOwnThread tmAdd
                 (mergeWorkers workersAux
                    [spWIdGenerator w, spWCvMatToOpInput w, spWCvMatToOpOutput w])
                 (w, queueIn, queueOut)))"

text \<open>Lines 956 to 974: the pose replicas, all on one pair of queues.\<close>

fun addPoses ::
  "('u, 'd) tmAdd \<Rightarrow> 'u TWorker list list \<Rightarrow> 64 word \<Rightarrow> 64 word \<Rightarrow> ('u, 'd) Wrapper
    \<Rightarrow> unit result \<times> ('u, 'd) Wrapper" where
  "addPoses tmAdd [] queueIn queueOut w = (Inr (), w)"
| "addPoses tmAdd (wPose # rest) queueIn queueOut w =
     (case mThreadManager_add tmAdd (mThreadId w) wPose queueIn queueOut w of
        (Inl e, w1) \<Rightarrow> (Inl e, w1)
      | (Inr u, w1) \<Rightarrow> addPoses tmAdd rest queueIn queueOut (snd (threadIdPP w1)))"

definition addPoseStages :: "('u, 'd) tmAdd \<Rightarrow> ('u, 'd) builder \<Rightarrow> ('u, 'd) built" where
  "addPoseStages tmAdd b =
     (case b of (w, queueIn, queueOut) \<Rightarrow>
        if spWPoses w \<noteq> [] then
          (case (if mMultiThreadEnabled w then addPoses tmAdd (spWPoses w) queueIn queueOut w
                 else (case spWPoses w of
                         wPose # _ \<Rightarrow> mThreadManager_add tmAdd (mThreadId w) wPose queueIn queueOut w
                       | [] \<Rightarrow> (Inr (), w))) of
             (Inl e, w1) \<Rightarrow> Inl (e, w1)
           | (Inr u, w1) \<Rightarrow> Inr (w1, queueIn + 1, queueOut + 1))
        else Inr (w, queueIn, queueOut))"

text \<open>Lines 975 to 1005: post-processing, user post-processing and output workers.\<close>

definition addPostProcessingStages ::
  "('u, 'd) tmAdd \<Rightarrow> ('u, 'd) builder \<Rightarrow> ('u, 'd) built" where
  "addPostProcessingStages tmAdd b =
     (case b of (w, queueIn, queueOut) \<Rightarrow>
        if mUserPostProcessingWs w \<noteq> [] \<and> mUserPostProcessingWsOnNewThread w then
          thenStage
            (thenStage
               (if mPostProcessingWs w \<noteq> []
                then addOnOwnThread tmAdd (mPostProcessingWs w) (w, queueIn, queueOut)
                else Inr (w, queueIn, queueOut))
               (\<lambda>b1. addOnOwnThread tmAdd (mUserPostProcessingWs w) b1))
            (\<lambda>b2. if mOutputWs w \<noteq> [] then addOnOwnThread tmAdd (mOutputWs w) b2 else Inr b2)
        else
          (let workersAux =
                 mergeWorkers (mergeWorkers (mPostProcessingWs w) (mUserPostProcessingWs w))
                   (mOutputWs w)
           in if workersAux \<noteq> [] then addOnOwnThread tmAdd workersAux (w, queueIn, queueOut)
              else Inr (w, queueIn, queueOut)))"

text \<open>
  Lines 1006 to 1016: the user's output worker. On the shared-thread branch the thread id is
  \<^verbatim>\<open>mThreadId-1\<close>, computed in \<^verbatim>\<open>unsigned int\<close>, and \<^verbatim>\<open>threadIdPP\<close> is not called.
\<close>

definition addUserOutputStage :: "('u, 'd) tmAdd \<Rightarrow> ('u, 'd) builder \<Rightarrow> ('u, 'd) built" where
  "addUserOutputStage tmAdd b =
     (case b of (w, queueIn, queueOut) \<Rightarrow>
        if mUserOutputWs w \<noteq> [] then
          (if mUserOutputWsOnNewThread w
           then addOnOwnThread tmAdd (mUserOutputWs w) (w, queueIn, queueOut)
           else (case mThreadManager_add tmAdd (mThreadId w - 1) (mUserOutputWs w)
                        queueIn queueOut w of
                   (Inl e, w1) \<Rightarrow> Inl (e, w1)
                 | (Inr u, w1) \<Rightarrow> Inr (w1, queueIn + 1, queueOut + 1)))
        else Inr (w, queueIn, queueOut))"

text \<open>Lines 1017 to 1022: the GUI.\<close>

definition addGuiStage :: "('u, 'd) tmAdd \<Rightarrow> ('u, 'd) builder \<Rightarrow> ('u, 'd) built" where
  "addGuiStage tmAdd b =
     (case b of (w, queueIn, queueOut) \<Rightarrow>
        if spWGui w \<noteq> None then addOnOwnThread tmAdd [spWGui w] (w, queueIn, queueOut)
        else Inr (w, queueIn, queueOut))"

text \<open>
  The whole function: the three checks, then the reset of the thread manager and of
  \<^verbatim>\<open>mThreadId\<close>, a fresh id generator, and the five groups of stages. An error, the
  function's own or one of the thread manager, leaves the wrapper as it is at the throw.
\<close>

definition configureThreadManager ::
  "('u, 'd) tmAdd \<Rightarrow> ('u, 'd) Wrapper \<Rightarrow> unit result \<times> ('u, 'd) Wrapper" where
  "configureThreadManager tmAdd w =
     (if spWCvMatToOpInput w = None \<or> spWCvMatToOpOutput w = None
        then (Inl (ConfigurationError msgConfigureFirst), w)
      else if ((wDatumProducer w = None) = (mUserInputWs w = []))
              \<and> mThreadManagerMode w \<noteq> Asynchronous \<and> mThreadManagerMode w \<noteq> AsynchronousIn
        then (Inl (ConfigurationError msgOneProducer), w)
      else if mOutputWs w = [] \<and> mUserOutputWs w = [] \<and> spWGui w = None
              \<and> mThreadManagerMode w \<noteq> Asynchronous \<and> mThreadManagerMode w \<noteq> AsynchronousOut
        then (Inl (ConfigurationError msgNoOutput), w)
      else
        (let w0 = w\<lparr>mThreadManager := tm_reset (mThreadManager w),
                     mThreadId := 0,
                     spWIdGenerator := Some WIdGenerator\<rparr>
         in case thenStage (thenStage (thenStage (thenStage
                   (addInputStages tmAdd (w0, 0, 1))
                   (addPoseStages tmAdd))
                   (addPostProcessingStages tmAdd))
                   (addUserOutputStage tmAdd))
                   (addGuiStage tmAdd) of
              Inl (e, w1) \<Rightarrow> (Inl e, w1)
            | Inr (w1, queueIn, queueOut) \<Rightarrow> (Inr (), w1)))"

text \<open>
  \<^verbatim>\<open>start\<close> and \<^verbatim>\<open>exec\<close> build the graph and then call the thread manager's operation of
  the same name, which is outside this file and is an argument here.
\<close>

definition start ::
  "('u, 'd) tmAdd \<Rightarrow> (('u, 'd) ThreadManager \<Rightarrow> unit result \<times> ('u, 'd) ThreadManager)
    \<Rightarrow> ('u, 'd) Wrapper \<Rightarrow> unit result \<times> ('u, 'd) Wrapper" where
  "start tmAdd tmStart w =
     (case configureThreadManager tmAdd w of
        (Inl e, w1) \<Rightarrow> (Inl e, w1)
      | (Inr u, w1) \<Rightarrow>
          (let (r, tm) = tmStart (mThreadManager w1) in (r, w1\<lparr>mThreadManager := tm\<rparr>)))"

definition exec ::
  "('u, 'd) tmAdd \<Rightarrow> (('u, 'd) ThreadManager \<Rightarrow> unit result \<times> ('u, 'd) ThreadManager)
    \<Rightarrow> ('u, 'd) Wrapper \<Rightarrow> unit result \<times> ('u, 'd) Wrapper" where
  "exec tmAdd tmExec w =
     (case configureThreadManager tmAdd w of
        (Inl e, w1) \<Rightarrow> (Inl e, w1)
      | (Inr u, w1) \<Rightarrow>
          (let (r, tm) = tmExec (mThreadManager w1) in (r, w1\<lparr>mThreadManager := tm\<rparr>)))"

subsection \<open>Configure\<close>

definition msgAlpha :: string where
  "msgAlpha = ''Alpha value for blending must be in the range [0,1].''"

definition msgScaleGap :: string where
  "msgScaleGap = ''The scale gap must be greater than 0 (it has no effect if the number of scales is 1).''"

definition msgRenderToSave :: string where
  "msgRenderToSave = ''In order to save the rendered frames (`write_images` or `write_video`), you must set `render_output` to true.''"

definition msgHeatMapTypes :: string where
  "msgHeatMapTypes = ''In order to save the heatmaps (`write_heatmaps`), you need to pick which heat maps you want to save: `heatmaps_add_X` flags or fill the wrapperStructPose.heatMapTypes.''"

definition msgHeatMapScale :: string where
  "msgHeatMapScale = ''In order to save the heatmaps, you must set wrapperStructPose.heatMapScaleMode to ScaleMode::UnsignedChar, i.e. range [0, 255].''"

definition additionalMessage :: string where
  "additionalMessage = '' You could also set mThreadManagerMode = mThreadManagerMode::Asynchronous(Out) and/or add your own output worker class before calling this function.''"

definition msgNothingGenerated :: string where
  "msgNothingGenerated = ''No output is selected (`no_display`) and no results are generated (no `write_X` flags enabled). Thus, no output would be generated.'' @ additionalMessage"

definition msgNoRender :: string where
  "msgNoRender = ''No render is enabled (`no_render_output`), so you should also remove the display (set `no_display` or `no_gui_verbose`).'' @ additionalMessage"

definition msgFramesRepeat :: string where
  "msgFramesRepeat = ''Frames repetition (`frames_repeat`) is enabled as well as some writing function (`write_X`). This program would never stop recording the same frames over and over. Please, disable repetition or remove writing.''"

definition msgVideoNeedsProducer :: string where
  "msgVideoNeedsProducer = ''Writting video is only available if the OpenPose producer is used (i.e. wrapperStructInput.producerSharedPtr cannot be a nullptr).''"

definition msgImageResolution :: string where
  "msgImageResolution = ''Output resolution = input resolution not valid for image reading (size might change between images).''"

definition msgResolutionUnset :: string where
  "msgResolutionUnset = ''Output resolution cannot be (-1 x -1) unless wrapperStructInput.producerSharedPtr is also set.''"

definition savingSomething :: "WrapperStructOutput \<Rightarrow> bool" where
  "savingSomething out =
     (writeImages out \<noteq> [] \<or> writeVideo out \<noteq> [] \<or> writePose out \<noteq> []
      \<or> writePoseJson out \<noteq> [] \<or> writeCocoJson out \<noteq> [] \<or> writeHeatMaps out \<noteq> [])"

text \<open>Lines 446 to 478: the checks made when the wrapper itself has to consume the output.\<close>

definition checkOutputFlags ::
  "WrapperStructPose \<Rightarrow> WrapperStructInput \<Rightarrow> WrapperStructOutput \<Rightarrow> error option" where
  "checkOutputFlags wrapperStructPose wrapperStructInput wrapperStructOutput =
     (if \<not> displayGui wrapperStructOutput \<and> \<not> savingSomething wrapperStructOutput
        then Some (ConfigurationError msgNothingGenerated)
      else if (displayGui wrapperStructOutput \<and> guiVerbose wrapperStructOutput)
              \<and> \<not> renderOutput wrapperStructPose
        then Some (ConfigurationError msgNoRender)
      else if framesRepeat wrapperStructInput \<and> savingSomething wrapperStructOutput
        then Some (ConfigurationError msgFramesRepeat)
      else None)"

text \<open>Lines 423 to 480: the first error among the contradictory flags, if any.\<close>

definition checkFlags ::
  "WrapperStructPose \<Rightarrow> WrapperStructInput \<Rightarrow> WrapperStructOutput \<Rightarrow> ('u, 'd) Wrapper
    \<Rightarrow> error option" where
  "checkFlags wrapperStructPose wrapperStructInput wrapperStructOutput w =
     (if alphaPose wrapperStructPose < 0 \<or> alphaPose wrapperStructPose > 1
         \<or> alphaHeatMap wrapperStructPose < 0 \<or> alphaHeatMap wrapperStructPose > 1
        then Some (ConfigurationError msgAlpha)
      else if scaleGap wrapperStructPose \<le> 0 \<and> scalesNumber wrapperStructPose > 1
        then Some (ConfigurationError msgScaleGap)
      else if \<not> renderOutput wrapperStructPose
              \<and> (writeImages wrapperStructOutput \<noteq> [] \<or> writeVideo wrapperStructOutput \<noteq> [])
        then Some (ConfigurationError msgRenderToSave)
      else if writeHeatMaps wrapperStructOutput \<noteq> [] \<and> heatMapTypes wrapperStructPose = []
        then Some (ConfigurationError msgHeatMapTypes)
      else if writeHeatMaps wrapperStructOutput \<noteq> []
              \<and> heatMapScaleMode wrapperStructPose \<noteq> UnsignedChar
        then Some (ConfigurationError msgHeatMapScale)
      else
        (case (if mUserOutputWs w = [] \<and> mThreadManagerMode w \<noteq> Asynchronous
                  \<and> mThreadManagerMode w \<noteq> AsynchronousOut
               then checkOutputFlags wrapperStructPose wrapperStructInput wrapperStructOutput
               else None) of
           Some e \<Rightarrow> Some e
         | None \<Rightarrow>
             if writeVideo wrapperStructOutput \<noteq> [] \<and> producerSharedPtr wrapperStructInput = None
             then Some (ConfigurationError msgVideoNeedsProducer)
             else None))"

text \<open>
  Lines 488 to 517: \<^verbatim>\<open>producerSize\<close> and \<^verbatim>\<open>finalOutputSize\<close>. The properties set on the
  producer are effects on an object outside the wrapper and are left out.
\<close>

definition producerSizeOf :: "WrapperStructInput \<Rightarrow> Size" where
  "producerSizeOf wrapperStructInput =
     (case producerSharedPtr wrapperStructInput of
        None \<Rightarrow> \<lparr>width = -1, height = -1\<rparr>
      | Some producer \<Rightarrow> \<lparr>width = frameWidth producer, height = frameHeight producer\<rparr>)"

definition finalOutputSizeOf :: "WrapperStructPose \<Rightarrow> WrapperStructInput \<Rightarrow> Size result" where
  "finalOutputSizeOf wrapperStructPose wrapperStructInput =
     (let finalOutputSize = outputSize wrapperStructPose;
          producerSize = producerSizeOf wrapperStructInput
      in if producerSharedPtr wrapperStructInput \<noteq> None then
           (if width (outputSize wrapperStructPose) = -1 \<or> height (outputSize wrapperStructPose) = -1
            then (if sint (area producerSize) > 0 then Inr producerSize
                  else Inl (ConfigurationError msgImageResolution))
            else Inr finalOutputSize)
         else if width finalOutputSize = -1 \<or> height finalOutputSize = -1
           then Inl (ConfigurationError msgResolutionUnset)
         else Inr finalOutputSize)"

text \<open>
  The blocks \<^verbatim>\<open>if (c) for (i = 0; i < spWPoses.size(); i++) spWPoses.at(i).emplace_back(...)\<close>:
  when the condition holds, replica \<open>i\<close> gets the worker made for index \<open>i\<close> at the end
  of its list.
\<close>

definition emplaceBackEach ::
  "bool \<Rightarrow> (nat \<Rightarrow> 'u Worker) \<Rightarrow> 'u TWorker list list \<Rightarrow> 'u TWorker list list" where
  "emplaceBackEach c mk wPoses =
     (if c then map (\<lambda>i. wPoses ! i @ [Some (mk i)]) [0..<length wPoses] else wPoses)"

definition emplaceBackIf :: "bool \<Rightarrow> 'a \<Rightarrow> 'a list \<Rightarrow> 'a list" where
  "emplaceBackIf c x xs = (if c then xs @ [x] else xs)"

text \<open>
  Lines 533 to 634: one list of workers per GPU. \<^verbatim>\<open>poseExtractors\<close> has one entry for
  every \<^verbatim>\<open>gpuId\<close> from 0 below \<^verbatim>\<open>gpuNumber\<close>; \<^verbatim>\<open>poseRenderers\<close> has as many when
  \<^verbatim>\<open>renderOutput\<close> is set and none otherwise.
\<close>

definition buildPoses ::
  "WrapperStructPose \<Rightarrow> WrapperStructFace \<Rightarrow> WrapperStructHand \<Rightarrow> 'u TWorker list list" where
  "buildPoses wrapperStructPose wrapperStructFace wrapperHandStruct =
     (let poseExtractors = [0..<nat (gpuNumber wrapperStructPose)];
          poseRenderers = (if renderOutput wrapperStructPose then poseExtractors else []);
          p0 = map (\<lambda>i. [Some (WPoseExtractor i)]) poseExtractors;
          p1 = emplaceBackEach (extractAndRenderFace wrapperStructFace) WFaceExtractor p0;
          p2 = emplaceBackEach (extractAndRenderHands wrapperHandStruct) WHandExtractor p1;
          p3 = emplaceBackEach (poseRenderers \<noteq> []) WPoseRenderer p2;
          p4 = emplaceBackEach (extractAndRenderHands wrapperHandStruct) WHandRenderer p3
      in emplaceBackEach (extractAndRenderFace wrapperStructFace) WFaceRenderer p4)"

text \<open>Lines 636 to 654: the workers between the pose stage and the output.\<close>

definition buildPostProcessingWs ::
  "WrapperStructPose \<Rightarrow> Size \<Rightarrow> Size \<Rightarrow> 'u TWorker list list \<Rightarrow> 'u TWorker list" where
  "buildPostProcessingWs wrapperStructPose finalOutputSize producerSize wPoses =
     (let ws0 = [];
          ws1 = emplaceBackIf (length wPoses > 1) (Some WQueueOrderer) ws0;
          ws2 = emplaceBackIf (renderOutput wrapperStructPose) (Some WOpOutputToCvMat) ws1
      in emplaceBackIf
           (poseScaleMode wrapperStructPose \<noteq> OutputResolution
            \<and> (poseScaleMode wrapperStructPose \<noteq> InputResolution
                 \<or> finalOutputSize \<noteq> producerSize)
            \<and> (poseScaleMode wrapperStructPose \<noteq> NetOutputResolution
                 \<or> finalOutputSize \<noteq> netInputSize wrapperStructPose))
           (Some WKeyPointScaler) ws2)"

text \<open>
  Lines 656 to 706: the output workers. \<^verbatim>\<open>formatAsDirectory\<close> is declared in a header
  outside this file and is an argument.
\<close>

definition buildOutputWs ::
  "(string \<Rightarrow> string) \<Rightarrow> WrapperStructInput \<Rightarrow> WrapperStructOutput \<Rightarrow> 'u TWorker list" where
  "buildOutputWs formatAsDirectory wrapperStructInput wrapperStructOutput =
     (let writeImagesCleaned = formatAsDirectory (writeImages wrapperStructOutput);
          writePoseCleaned = formatAsDirectory (writePose wrapperStructOutput);
          writePoseJsonCleaned = formatAsDirectory (writePoseJson wrapperStructOutput);
          writeHeatMapsCleaned = formatAsDirectory (writeHeatMaps wrapperStructOutput);
          ws0 = [];
          ws1 = emplaceBackIf (writePoseCleaned \<noteq> []) (Some WPoseSaver) ws0;
          ws2 = emplaceBackIf (writePoseJsonCleaned \<noteq> []) (Some WPoseJsonSaver) ws1;
          ws3 = emplaceBackIf (writeCocoJson wrapperStructOutput \<noteq> []) (Some WPoseJsonCocoSaver) ws2;
          ws4 = emplaceBackIf (writeImagesCleaned \<noteq> []) (Some WImageSaver) ws3;
          ws5 = emplaceBackIf
                  (writeVideo wrapperStructOutput \<noteq> []
                   \<and> producerSharedPtr wrapperStructInput \<noteq> None)
                  (Some WVideoSaver) ws4;
          ws6 = emplaceBackIf (writeHeatMapsCleaned \<noteq> []) (Some WHeatMapSaver) ws5
      in emplaceBackIf (displayGui wrapperStructOutput \<and> guiVerbose wrapperStructOutput)
           (Some WGuiInfoAdder) ws6)"

text \<open>
  The full \<^verbatim>\<open>configure\<close>, which the three shorter overloads call with default structs.
  Every check comes before the first assignment to a member, so an error leaves the wrapper
  as it was. The constructors of the workers and the calls on the producer are taken to
  return normally.
\<close>

definition configure ::
  "(string \<Rightarrow> string) \<Rightarrow> WrapperStructPose \<Rightarrow> WrapperStructFace \<Rightarrow> WrapperStructHand
    \<Rightarrow> WrapperStructInput \<Rightarrow> WrapperStructOutput \<Rightarrow> ('u, 'd) Wrapper
    \<Rightarrow> unit result \<times> ('u, 'd) Wrapper" where
  "configure formatAsDirectory wrapperStructPose wrapperStructFace wrapperHandStruct
      wrapperStructInput wrapperStructOutput w =
     (case checkFlags wrapperStructPose wrapperStructInput wrapperStructOutput w of
        Some e \<Rightarrow> (Inl e, w)
      | None \<Rightarrow>
          (case finalOutputSizeOf wrapperStructPose wrapperStructInput of
             Inl e \<Rightarrow> (Inl e, w)
           | Inr finalOutputSize \<Rightarrow>
               (let wPoses = buildPoses wrapperStructPose wrapperStructFace wrapperHandStruct
                in (Inr (),
                    w\<lparr>mGpuNumber := gpuNumber wrapperStructPose,
                      wDatumProducer :=
                        (if producerSharedPtr wrapperStructInput \<noteq> None
                         then Some WDatumProducer else None),
                      spWCvMatToOpInput := Some WCvMatToOpInput,
                      spWCvMatToOpOutput := Some WCvMatToOpOutput,
                      spWPoses := wPoses,
                      mPostProcessingWs :=
                        buildPostProcessingWs wrapperStructPose finalOutputSize
                          (producerSizeOf wrapperStructInput) wPoses,
                      mOutputWs :=
                        buildOutputWs formatAsDirectory wrapperStructInput wrapperStructOutput,
                      spWGui := (if displayGui wrapperStructOutput then Some WGui else None)\<rparr>))))"

section \<open>Notions used to state the properties\<close>

abbreviation graph :: "('u, 'd) Wrapper \<Rightarrow> 'u Stage list" where
  "graph w \<equiv> mThreadWorkerQueues (mThreadManager w)"

text \<open>
  A thread manager whose \<^verbatim>\<open>add\<close> accepts every stage and records it. Run with it, the
  graph builder leaves the list of all the calls it issues, those that \<open>tm_add\<close> refuses
  among them.
\<close>

definition tm_record :: "('u, 'd) tmAdd" where
  "tm_record tid ws qIn qOut tm =
     (Inr (),
      tm\<lparr>mThreadWorkerQueues := mThreadWorkerQueues tm @
        [\<lparr>threadId = tid, units = ws, queueInId = qIn, queueOutId = qOut\<rparr>]\<rparr>)"

text \<open>How many producers are configured: the internal one and the user's input worker.\<close>

definition numProducers :: "('u, 'd) Wrapper \<Rightarrow> nat" where
  "numProducers w =
     (if wDatumProducer w \<noteq> None then 1 else 0) + (if mUserInputWs w \<noteq> [] then 1 else 0)"

text \<open>
  How many consumers are configured: the internal output workers, the user's output worker
  and the GUI.
\<close>

definition numConsumers :: "('u, 'd) Wrapper \<Rightarrow> nat" where
  "numConsumers w =
     (if mOutputWs w \<noteq> [] then 1 else 0) + (if mUserOutputWs w \<noteq> [] then 1 else 0)
       + (if spWGui w \<noteq> None then 1 else 0)"

definition isConfigured :: "('u, 'd) Wrapper \<Rightarrow> bool" where
  "isConfigured w = (spWCvMatToOpInput w \<noteq> None \<and> spWCvMatToOpOutput w \<noteq> None)"

definition asyncIngress :: "('u, 'd) Wrapper \<Rightarrow> bool" where
  "asyncIngress w =
     (mThreadManagerMode w = Asynchronous \<or> mThreadManagerMode w = AsynchronousIn)"

definition asyncEgress :: "('u, 'd) Wrapper \<Rightarrow> bool" where
  "asyncEgress w =
     (mThreadManagerMode w = Asynchronous \<or> mThreadManagerMode w = AsynchronousOut)"

text \<open>The workers that feed the pipeline: the user's input worker, else the internal producer.\<close>

definition ingressWorkers :: "('u, 'd) Wrapper \<Rightarrow> 'u TWorker list" where
  "ingressWorkers w =
     (if mUserInputWs w \<noteq> [] then mUserInputWs w
      else if wDatumProducer w \<noteq> None then [wDatumProducer w]
      else [])"

text \<open>
  Debug mode with a user output worker on a shared thread and the GUI: the user output worker
  is added with thread id \<^verbatim>\<open>mThreadId-1\<close> and the GUI after it with \<^verbatim>\<open>mThreadId\<close>,
  while \<^verbatim>\<open>mThreadId\<close> is 0.
\<close>

definition guiAfterSharedUserOutput :: "('u, 'd) Wrapper \<Rightarrow> bool" where
  "guiAfterSharedUserOutput w =
     (\<not> mMultiThreadEnabled w \<and> mUserOutputWs w \<noteq> [] \<and> \<not> mUserOutputWsOnNewThread w
      \<and> spWGui w \<noteq> None)"

text \<open>
  The id generator object is in none of the slots that \<^verbatim>\<open>configure\<close> and the setters
  fill; \<^verbatim>\<open>spWIdGenerator\<close> is the only member that may hold it.
\<close>

definition idGeneratorOnlyInItsSlot :: "('u, 'd) Wrapper \<Rightarrow> bool" where
  "idGeneratorOnlyInItsSlot w =
     (Some WIdGenerator \<notin> set (mUserInputWs w
         @ [wDatumProducer w, spWCvMatToOpInput w, spWCvMatToOpOutput w]
         @ concat (spWPoses w) @ mPostProcessingWs w @ mUserPostProcessingWs w @ mOutputWs w
         @ [spWGui w] @ mUserOutputWs w))"

text \<open>
  The wrappers a caller can obtain: from the constructor, through the public operations.
  \<^verbatim>\<open>start\<close> and \<^verbatim>\<open>exec\<close> run \<^verbatim>\<open>configureThreadManager\<close>, with whatever
  \<^verbatim>\<open>add\<close> the thread manager has; they and \<^verbatim>\<open>stop\<close> and the boundary operations
  otherwise only act on the thread manager, in ways this file does not fix.
\<close>

inductive reachable :: "('u, 'd) Wrapper \<Rightarrow> bool" where
  constructed: "reachable (Wrapper_new threadManagerMode gpu f1 f2 f3 tid)"
| disabled: "reachable w \<Longrightarrow> reachable (disableMultiThreading w)"
| workerInput: "reachable w \<Longrightarrow> reachable (snd (setWorkerInput worker workerOnNewThread w))"
| workerPostProcessing:
    "reachable w \<Longrightarrow> reachable (snd (setWorkerPostProcessing worker workerOnNewThread w))"
| workerOutput: "reachable w \<Longrightarrow> reachable (snd (setWorkerOutput worker workerOnNewThread w))"
| configured:
    "reachable w \<Longrightarrow>
     reachable (snd (configure formatAsDirectory wrapperStructPose wrapperStructFace
                       wrapperHandStruct wrapperStructInput wrapperStructOutput w))"
| graphBuilt: "reachable w \<Longrightarrow> reachable (snd (configureThreadManager tmAdd w))"
| managed: "reachable w \<Longrightarrow> reachable (w\<lparr>mThreadManager := tm\<rparr>)"

subsection \<open>The graph as a list appended to the thread manager\<close>

text \<open>
  Every step of the graph builder appends stages to the thread manager and moves
  \<^verbatim>\<open>mThreadId\<close>; nothing else of the wrapper changes. \<open>extended new tid w\<close> is \<open>w\<close>
  after such a step.
\<close>

definition extended :: "'u Stage list \<Rightarrow> 32 word \<Rightarrow> ('u, 'd) Wrapper \<Rightarrow> ('u, 'd) Wrapper" where
  "extended new tid w =
     w\<lparr>mThreadManager := (mThreadManager w)\<lparr>mThreadWorkerQueues := graph w @ new\<rparr>,
       mThreadId := tid\<rparr>"

text \<open>
  What a step may change: \<open>sameSlots w w'\<close> says that \<open>w'\<close> is \<open>w\<close> but for the
  thread manager and the thread id.
\<close>

definition sameSlots :: "('u, 'd) Wrapper \<Rightarrow> ('u, 'd) Wrapper \<Rightarrow> bool" where
  "sameSlots w w' = (w' = w\<lparr>mThreadManager := mThreadManager w', mThreadId := mThreadId w'\<rparr>)"

definition frames :: "('u, 'd) built \<Rightarrow> ('u, 'd) Wrapper \<Rightarrow> bool" where
  "frames r w =
     (case r of Inl (e, w') \<Rightarrow> sameSlots w w' | Inr (w', queueIn, queueOut) \<Rightarrow> sameSlots w w')"

text \<open>
  A thread manager that validates a stage with \<open>check\<close>, which gets the graph so far and
  the stage and gives the error to raise, if any: \<open>tm_add\<close> is the one with the check
  \<open>stageError\<close>, \<open>tm_record\<close> the one with no check.
\<close>

definition tm_addIf :: "('u Stage list \<Rightarrow> 'u Stage \<Rightarrow> error option) \<Rightarrow> ('u, 'd) tmAdd" where
  "tm_addIf check tid ws qIn qOut tm =
     (case check (mThreadWorkerQueues tm)
             \<lparr>threadId = tid, units = ws, queueInId = qIn, queueOutId = qOut\<rparr> of
        Some e \<Rightarrow> (Inl e, tm)
      | None \<Rightarrow>
          (Inr (),
           tm\<lparr>mThreadWorkerQueues := mThreadWorkerQueues tm @
             [\<lparr>threadId = tid, units = ws, queueInId = qIn, queueOutId = qOut\<rparr>]\<rparr>))"

definition stageError :: "'u Stage list \<Rightarrow> 'u Stage \<Rightarrow> error option" where
  "stageError g s =
     (if \<not> queueInId s < queueOutId s then Some (ConfigurationError msgChannelOrder)
      else if g \<noteq> [] \<and> threadId s < threadId (last g)
        then Some (ConfigurationError msgThreadOrder)
      else None)"

text \<open>The first error that a sequence of stages meets when they are added to the graph \<open>g\<close>.\<close>

primrec firstError ::
  "('u Stage list \<Rightarrow> 'u Stage \<Rightarrow> error option) \<Rightarrow> 'u Stage list \<Rightarrow> 'u Stage list
    \<Rightarrow> error option" where
  "firstError check g [] = None"
| "firstError check g (s # ss) =
     (case check g s of Some e \<Rightarrow> Some e | None \<Rightarrow> firstError check (g @ [s]) ss)"

text \<open>
  \<open>adds check r w new t q\<close>: the outcome \<open>r\<close> is that of passing the stages \<open>new\<close> to
  the thread manager of \<open>w\<close>, one after the other. When all are accepted, the wrapper is
  extended by them and has thread id \<open>t\<close>, and the queue counters are \<open>q\<close> and
  \<open>q + 1\<close>; otherwise the first error is thrown.
\<close>

definition adds ::
  "('u Stage list \<Rightarrow> 'u Stage \<Rightarrow> error option) \<Rightarrow> ('u, 'd) built \<Rightarrow> ('u, 'd) Wrapper
    \<Rightarrow> 'u Stage list \<Rightarrow> 32 word \<Rightarrow> 64 word \<Rightarrow> bool" where
  "adds check r w new t q =
     (case firstError check (graph w) new of
        None \<Rightarrow> r = Inr (extended new t w, q, q + 1)
      | Some e \<Rightarrow> (\<exists>w'. r = Inl (e, w')))"

definition bump :: "bool \<Rightarrow> 32 word \<Rightarrow> 32 word" where
  "bump multi t = (if multi then t + 1 else t)"

abbreviation nextThreadId :: "('u, 'd) Wrapper \<Rightarrow> 32 word" where
  "nextThreadId w \<equiv> bump (mMultiThreadEnabled w) (mThreadId w)"

text \<open>
  The thread ids of \<open>n\<close> stages that are each added with the current \<^verbatim>\<open>mThreadId\<close>
  and followed by \<^verbatim>\<open>threadIdPP\<close>, starting from thread id \<open>t\<close>.
\<close>

primrec stageIds :: "bool \<Rightarrow> 32 word \<Rightarrow> nat \<Rightarrow> 32 word list" where
  "stageIds multi t 0 = []"
| "stageIds multi t (Suc n) = t # stageIds multi (bump multi t) n"

text \<open>
  The stages that lines 1006 to 1022 pass to the thread manager when they start with thread id
  \<open>t\<close> and queue index \<open>q\<close> (lemma \<open>addOutput_adds\<close> below).
\<close>

definition userOutputStages :: "('u, 'd) Wrapper \<Rightarrow> 32 word \<Rightarrow> 64 word \<Rightarrow> 'u Stage list" where
  "userOutputStages w t q =
     (if mUserOutputWs w = [] then []
      else [\<lparr>threadId = (if mUserOutputWsOnNewThread w then t else t - 1),
             units = mUserOutputWs w, queueInId = q, queueOutId = q + 1\<rparr>])"

definition guiStages :: "('u, 'd) Wrapper \<Rightarrow> 32 word \<Rightarrow> 64 word \<Rightarrow> 'u Stage list" where
  "guiStages w t q =
     (if spWGui w = None then []
      else [\<lparr>threadId = (if mUserOutputWs w \<noteq> [] \<and> mUserOutputWsOnNewThread w
                          then bump (mMultiThreadEnabled w) t else t),
             units = [spWGui w],
             queueInId = (if mUserOutputWs w = [] then q else q + 1),
             queueOutId = (if mUserOutputWs w = [] then q else q + 1) + 1\<rparr>])"

subsection \<open>Concrete configurations\<close>

text \<open>
  Inputs on which the model is run below. \<open>exampleFormat\<close> stands in for
  \<^verbatim>\<open>formatAsDirectory\<close>: it keeps an empty path empty and ends any other with a slash.
\<close>

definition exampleFormat :: "string \<Rightarrow> string" where
  "exampleFormat s = (if s = [] then [] else s @ ''/'')"

definition examplePose :: "int \<Rightarrow> WrapperStructPose" where
  "examplePose gpus =
     \<lparr>netInputSize = \<lparr>width = 656, height = 368\<rparr>,
      outputSize = \<lparr>width = 1280, height = 720\<rparr>,
      poseScaleMode = OutputResolution, gpuNumber = gpus, scalesNumber = 1,
      scaleGap = 3 / 10, renderOutput = True, alphaPose = 6 / 10, alphaHeatMap = 7 / 10,
      heatMapTypes = [], heatMapScaleMode = ZeroToOne\<rparr>"

definition exampleInput :: "bool \<Rightarrow> WrapperStructInput" where
  "exampleInput withProducer =
     \<lparr>producerSharedPtr =
        (if withProducer then Some \<lparr>frameWidth = 640, frameHeight = 480\<rparr> else None),
      realTimeProcessing = False, framesRepeat = False\<rparr>"

definition exampleOutput :: "bool \<Rightarrow> string \<Rightarrow> WrapperStructOutput" where
  "exampleOutput gui json =
     \<lparr>displayGui = gui, guiVerbose = False, writePose = [], writePoseJson = json,
      writeCocoJson = [], writeImages = [], writeVideo = [], writeHeatMaps = []\<rparr>"

text \<open>
  \<^verbatim>\<open>configure\<close> for \<open>gpus\<close> GPUs, with or without the internal producer and the GUI, and
  writing JSON files to the directory \<open>json\<close> unless that is empty.
\<close>

definition configureExample ::
  "int \<Rightarrow> bool \<Rightarrow> bool \<Rightarrow> string \<Rightarrow> (nat, nat) Wrapper \<Rightarrow> unit result \<times> (nat, nat) Wrapper" where
  "configureExample gpus withProducer gui json =
     configure exampleFormat (examplePose gpus) \<lparr>extractAndRenderFace = False\<rparr>
       \<lparr>extractAndRenderHands = False\<rparr> (exampleInput withProducer) (exampleOutput gui json)"

definition newWrapper :: "ThreadManagerMode \<Rightarrow> (nat, nat) Wrapper" where
  "newWrapper threadManagerMode = Wrapper_new threadManagerMode 0 False False False 0"

text \<open>
  A wrapper in debug mode with a user output worker on a shared thread, the internal producer,
  one GPU, and the GUI or not.
\<close>

definition singleThreadUserOutput :: "bool \<Rightarrow> (nat, nat) Wrapper" where
  "singleThreadUserOutput gui =
     snd (configureExample 1 True gui []
       (snd (setWorkerOutput (Some 7) False (disableMultiThreading (newWrapper Synchronous)))))"

text \<open>
  A wrapper in asynchronous mode, configured with the internal producer and a JSON writer,
  after its graph was built and with the four channels of that graph as a running thread
  manager has them: the first one empty, the last one holding the item 9.
\<close>

definition runningAsync :: "(nat, nat) Wrapper" where
  "runningAsync =
     (let w = snd (configureThreadManager tm_add
                (snd (configureExample 1 True False ''out'' (newWrapper Asynchronous))))
      in w\<lparr>mThreadManager := (mThreadManager w)
             \<lparr>mTQueues := [\<lparr>capacity = 2, items = [], closed = False\<rparr>,
                           \<lparr>capacity = 2, items = [], closed = False\<rparr>,
                           \<lparr>capacity = 2, items = [], closed = False\<rparr>,
                           \<lparr>capacity = 2, items = [9], closed = False\<rparr>]\<rparr>\<rparr>)"

text \<open>A user input worker set on a wrapper that was never configured.\<close>

definition neverConfigured :: "(nat, nat) Wrapper" where
  "neverConfigured = snd (setWorkerInput (Some 3) True (newWrapper Synchronous))"



text \<open>The internal producer, a JSON writer and the GUI, in synchronous mode.\<close>

definition syncGuiJson :: "(nat, nat) Wrapper" where
  "syncGuiJson = snd (configureExample 1 True True ''out'' (newWrapper Synchronous))"

text \<open>A user input worker on its own thread, two GPUs and the GUI.\<close>

definition userInputTwoGpus :: "(nat, nat) Wrapper" where
  "userInputTwoGpus =
     snd (configureExample 2 False True []
       (snd (setWorkerInput (Some 3) True (newWrapper Synchronous))))"

section \<open>Properties\<close>

subsection \<open>The steps of the graph builder\<close>

lemma bump_False [simp]: "bump False t = t"
  by (simp add: bump_def)

lemma length_stageIds [simp]: "length (stageIds m t n) = n"
  by (induction n arbitrary: t) simp_all

lemma stageIds_append:
  "stageIds m t (a + b) = stageIds m t a @ stageIds m ((bump m ^^ a) t) b"
  by (induction a arbitrary: t) (simp_all add: funpow_swap1)

lemma funpow_funpow: "(f ^^ a) ((f ^^ b) x) = (f ^^ (a + b)) x"
  by (simp add: funpow_add)

lemma bump_funpow_False [simp]: "(bump False ^^ n) t = t"
  by (induction n) simp_all

lemma bump_funpow_True: "(bump True ^^ n) t = t + of_nat n"
  by (induction n) (simp_all add: bump_def)

lemma stageIds_False: "stageIds False t n = replicate n t"
  by (induction n) simp_all

lemma stageIds_True_nth:
  "k < n \<Longrightarrow> stageIds True t n ! k = t + of_nat k"
proof (induction n arbitrary: t k)
  case 0
  then show ?case by simp
next
  case (Suc n)
  show ?case
  proof (cases k)
    case 0
    then show ?thesis by simp
  next
    case (Suc j)
    with Suc.prems have "j < n" by simp
    from Suc.IH [OF this, of "bump True t"] Suc show ?thesis
      by (simp add: bump_def add.assoc)
  qed
qed

lemma unat_plus_le: "unat (a + b :: 'a::len word) \<le> unat a + unat b"
  by (simp add: unat_word_ariths)

lemma word32_of_nat_mono:
  assumes "i \<le> j" and "j < 2 ^ 32"
  shows "(of_nat i :: 32 word) \<le> of_nat j"
proof -
  have "unat (of_nat i :: 32 word) = i" "unat (of_nat j :: 32 word) = j"
    using assms by (simp_all add: unat_of_nat take_bit_nat_eq_self)
  then show ?thesis using assms(1) by (simp add: word_le_nat_alt)
qed

lemma extended_sel [simp]:
  "mThreadManagerMode (extended n t w) = mThreadManagerMode w"
  "spVideoSeek (extended n t w) = spVideoSeek w"
  "mGpuNumber (extended n t w) = mGpuNumber w"
  "mUserInputWsOnNewThread (extended n t w) = mUserInputWsOnNewThread w"
  "mUserPostProcessingWsOnNewThread (extended n t w) = mUserPostProcessingWsOnNewThread w"
  "mUserOutputWsOnNewThread (extended n t w) = mUserOutputWsOnNewThread w"
  "mThreadId (extended n t w) = t"
  "mMultiThreadEnabled (extended n t w) = mMultiThreadEnabled w"
  "mUserInputWs (extended n t w) = mUserInputWs w"
  "wDatumProducer (extended n t w) = wDatumProducer w"
  "spWIdGenerator (extended n t w) = spWIdGenerator w"
  "spWCvMatToOpInput (extended n t w) = spWCvMatToOpInput w"
  "spWCvMatToOpOutput (extended n t w) = spWCvMatToOpOutput w"
  "spWPoses (extended n t w) = spWPoses w"
  "mPostProcessingWs (extended n t w) = mPostProcessingWs w"
  "mUserPostProcessingWs (extended n t w) = mUserPostProcessingWs w"
  "mOutputWs (extended n t w) = mOutputWs w"
  "spWGui (extended n t w) = spWGui w"
  "mUserOutputWs (extended n t w) = mUserOutputWs w"
  "graph (extended n t w) = graph w @ n"
  "mTQueues (mThreadManager (extended n t w)) = mTQueues (mThreadManager w)"
  by (simp_all add: extended_def)

lemma extended_extended [simp]:
  "extended n2 t2 (extended n1 t1 w) = extended (n1 @ n2) t2 w"
  by (simp add: extended_def)

lemma extended_nil: "extended [] (mThreadId w) w = w"
  by (simp add: extended_def)


lemma mergeWorkers_append [simp]: "mergeWorkers a b = a @ b"
  unfolding mergeWorkers_def by (induction b arbitrary: a) simp_all

lemma threadIdPP_extended: "snd (threadIdPP w) = extended [] (nextThreadId w) w"
  by (simp add: threadIdPP_def bump_def extended_def Let_def)

subsection \<open>What the graph builder leaves alone\<close>

lemma sameSlots_refl [simp]: "sameSlots w w"
  by (simp add: sameSlots_def)

lemma sameSlots_extended [simp]: "sameSlots w (extended n t w)"
  by (simp add: sameSlots_def extended_def)

lemma sameSlots_from_extended [simp]: "sameSlots (extended n t w) w' = sameSlots w w'"
  by (simp add: sameSlots_def extended_def)

lemma sameSlots_trans:
  assumes "sameSlots a b" and "sameSlots b c"
  shows "sameSlots a c"
proof -
  from assms(1) have b: "b = a\<lparr>mThreadManager := mThreadManager b, mThreadId := mThreadId b\<rparr>"
    by (simp add: sameSlots_def)
  from assms(2) have "c = b\<lparr>mThreadManager := mThreadManager c, mThreadId := mThreadId c\<rparr>"
    by (simp add: sameSlots_def)
  then have "c = (a\<lparr>mThreadManager := mThreadManager b, mThreadId := mThreadId b\<rparr>)
      \<lparr>mThreadManager := mThreadManager c, mThreadId := mThreadId c\<rparr>"
    using b by simp
  then show ?thesis by (simp add: sameSlots_def)
qed

lemma mThreadManager_add_sameSlots:
  "sameSlots w (snd (mThreadManager_add tmAdd tid ws qi qo w))"
  by (simp add: mThreadManager_add_def split_beta sameSlots_def)

lemma threadIdPP_sameSlots: "sameSlots w (snd (threadIdPP w))"
  by (simp add: threadIdPP_extended)

lemma frames_simps [simp]:
  "frames (Inr (w', qi, qo)) w = sameSlots w w'"
  "frames (Inl (e, w')) w = sameSlots w w'"
  by (simp_all add: frames_def)

lemma frames_trans: "sameSlots w w' \<Longrightarrow> frames r w' \<Longrightarrow> frames r w"
  by (auto simp: frames_def intro: sameSlots_trans split: sum.splits)

lemma frames_thenStage:
  assumes "frames r w" and "\<And>w' qi qo. sameSlots w w' \<Longrightarrow> frames (f (w', qi, qo)) w'"
  shows "frames (thenStage r f) w"
proof (cases r)
  case (Inl thrown)
  with assms(1) show ?thesis by (simp add: thenStage_def)
next
  case (Inr b)
  obtain w' qi qo where b: "b = (w', qi, qo)" by (cases b) auto
  from assms(1) Inr b have s: "sameSlots w w'" by simp
  from assms(2) [OF s, of qi qo] have "frames (f b) w'" by (simp add: b)
  with s have "frames (f b) w" by (rule frames_trans)
  with Inr show ?thesis by (simp add: thenStage_def)
qed

lemma addOnOwnThread_frames: "frames (addOnOwnThread tmAdd ws (w, qi, qo)) w"
proof -
  obtain r w1 where a: "mThreadManager_add tmAdd (mThreadId w) ws qi qo w = (r, w1)"
    by (cases "mThreadManager_add tmAdd (mThreadId w) ws qi qo w") auto
  then have s: "sameSlots w w1"
    using mThreadManager_add_sameSlots [of w tmAdd "mThreadId w" ws qi qo] by simp
  show ?thesis
  proof (cases r)
    case (Inl e)
    with a s show ?thesis by (simp add: addOnOwnThread_def)
  next
    case (Inr u)
    from s threadIdPP_sameSlots [of w1] have "sameSlots w (snd (threadIdPP w1))"
      by (rule sameSlots_trans)
    with a Inr show ?thesis by (simp add: addOnOwnThread_def)
  qed
qed

lemma addInputStages_frames: "frames (addInputStages tmAdd (w, qi, qo)) w"
proof -
  have 1: "frames
      (thenStage (addOnOwnThread tmAdd (mUserInputWs w) (w, qi, qo))
         (\<lambda>(w1, queueIn1, queueOut1).
            addOnOwnThread tmAdd
              [spWIdGenerator w1, spWCvMatToOpInput w1, spWCvMatToOpOutput w1]
              (w1, queueIn1, queueOut1))) w"
    by (intro frames_thenStage addOnOwnThread_frames) (simp add: addOnOwnThread_frames)
  have 2: "frames
      (case inputWorkersAux w of
         Inl e \<Rightarrow> Inl (e, w)
       | Inr workersAux \<Rightarrow>
           addOnOwnThread tmAdd
             (mergeWorkers workersAux
                [spWIdGenerator w, spWCvMatToOpInput w, spWCvMatToOpOutput w])
             (w, qi, qo)) w"
    by (cases "inputWorkersAux w") (simp_all add: addOnOwnThread_frames)
  show ?thesis
    using 1 2 by (simp add: addInputStages_def)
qed

lemma addPoses_sameSlots: "sameSlots w (snd (addPoses tmAdd ps qi qo w))"
proof (induction ps arbitrary: w)
  case Nil
  show ?case by simp
next
  case (Cons p ps)
  obtain r w1 where a: "mThreadManager_add tmAdd (mThreadId w) p qi qo w = (r, w1)"
    by (cases "mThreadManager_add tmAdd (mThreadId w) p qi qo w") auto
  then have s: "sameSlots w w1"
    using mThreadManager_add_sameSlots [of w tmAdd "mThreadId w" p qi qo] by simp
  show ?case
  proof (cases r)
    case (Inl e)
    with a s show ?thesis by simp
  next
    case (Inr u)
    from s threadIdPP_sameSlots [of w1] have "sameSlots w (snd (threadIdPP w1))"
      by (rule sameSlots_trans)
    from this Cons.IH [of "snd (threadIdPP w1)"]
    have "sameSlots w (snd (addPoses tmAdd ps qi qo (snd (threadIdPP w1))))"
      by (rule sameSlots_trans)
    with a Inr show ?thesis by simp
  qed
qed

lemma addPoseStages_frames: "frames (addPoseStages tmAdd (w, qi, qo)) w"
proof (cases "spWPoses w")
  case Nil
  then show ?thesis by (simp add: addPoseStages_def)
next
  case (Cons p ps)
  let ?x = "if mMultiThreadEnabled w then addPoses tmAdd (p # ps) qi qo w
            else mThreadManager_add tmAdd (mThreadId w) p qi qo w"
  have s: "sameSlots w (snd ?x)"
    using addPoses_sameSlots [of w tmAdd "p # ps" qi qo]
      mThreadManager_add_sameSlots [of w tmAdd "mThreadId w" p qi qo]
    by (simp del: addPoses.simps)
  obtain r w1 where x: "?x = (r, w1)" by (cases ?x) auto
  with s have "sameSlots w w1" by simp
  then have "frames (case (r, w1) of (Inl e, w1) \<Rightarrow> Inl (e, w1)
                     | (Inr u, w1) \<Rightarrow> Inr (w1, qi + 1, qo + 1)) w"
    by (cases r) simp_all
  then have "frames (case ?x of (Inl e, w1) \<Rightarrow> Inl (e, w1)
                     | (Inr u, w1) \<Rightarrow> Inr (w1, qi + 1, qo + 1)) w"
    by (simp only: x)
  then show ?thesis
    using Cons by (simp add: addPoseStages_def del: addPoses.simps split: if_splits)
qed

lemma addPostProcessingStages_frames: "frames (addPostProcessingStages tmAdd (w, qi, qo)) w"
proof -
  have 1: "frames (if mPostProcessingWs w \<noteq> []
                   then addOnOwnThread tmAdd (mPostProcessingWs w) (w, qi, qo)
                   else Inr (w, qi, qo)) w"
    by (simp add: addOnOwnThread_frames)
  have 2: "frames
      (thenStage
         (thenStage
            (if mPostProcessingWs w \<noteq> []
             then addOnOwnThread tmAdd (mPostProcessingWs w) (w, qi, qo)
             else Inr (w, qi, qo))
            (\<lambda>b1. addOnOwnThread tmAdd (mUserPostProcessingWs w) b1))
         (\<lambda>b2. if mOutputWs w \<noteq> [] then addOnOwnThread tmAdd (mOutputWs w) b2 else Inr b2)) w"
    by (intro frames_thenStage 1) (simp_all add: addOnOwnThread_frames)
  have 3: "frames
      (let workersAux =
             mergeWorkers (mergeWorkers (mPostProcessingWs w) (mUserPostProcessingWs w))
               (mOutputWs w)
       in if workersAux \<noteq> [] then addOnOwnThread tmAdd workersAux (w, qi, qo)
          else Inr (w, qi, qo)) w"
    by (simp add: Let_def addOnOwnThread_frames)
  show ?thesis
    unfolding addPostProcessingStages_def using 2 3 by (simp only: prod.case if_split) simp
qed

lemma addUserOutputStage_frames: "frames (addUserOutputStage tmAdd (w, qi, qo)) w"
proof -
  obtain r w1 where
    a: "mThreadManager_add tmAdd (mThreadId w - 1) (mUserOutputWs w) qi qo w = (r, w1)"
    by (cases "mThreadManager_add tmAdd (mThreadId w - 1) (mUserOutputWs w) qi qo w") auto
  then have s: "sameSlots w w1"
    using mThreadManager_add_sameSlots [of w tmAdd "mThreadId w - 1" "mUserOutputWs w" qi qo]
    by simp
  show ?thesis
    using a s by (cases r) (simp_all add: addUserOutputStage_def addOnOwnThread_frames)
qed

lemma addGuiStage_frames: "frames (addGuiStage tmAdd (w, qi, qo)) w"
  by (simp add: addGuiStage_def addOnOwnThread_frames)

text \<open>Whatever the outcome, only the thread manager, the thread id and the id generator change.\<close>

lemma configureThreadManager_frame:
  "\<exists>tm t g. snd (configureThreadManager tmAdd w) =
     w\<lparr>mThreadManager := tm, mThreadId := t, spWIdGenerator := g\<rparr>"
proof -
  let ?w0 = "w\<lparr>mThreadManager := tm_reset (mThreadManager w), mThreadId := 0,
                spWIdGenerator := Some WIdGenerator\<rparr>"
  let ?r = "thenStage (thenStage (thenStage (thenStage
                   (addInputStages tmAdd (?w0, 0, 1))
                   (addPoseStages tmAdd))
                   (addPostProcessingStages tmAdd))
                   (addUserOutputStage tmAdd))
                   (addGuiStage tmAdd)"
  have own: "\<exists>tm t g. w = w\<lparr>mThreadManager := tm, mThreadId := t, spWIdGenerator := g\<rparr>"
    by (intro exI [of _ "mThreadManager w"] exI [of _ "mThreadId w"]
          exI [of _ "spWIdGenerator w"]) simp
  have f: "frames ?r ?w0"
    by (intro frames_thenStage addInputStages_frames addPoseStages_frames
          addPostProcessingStages_frames addUserOutputStage_frames addGuiStage_frames)
  have built: "\<exists>tm t g. w' = w\<lparr>mThreadManager := tm, mThreadId := t, spWIdGenerator := g\<rparr>"
    if "sameSlots ?w0 w'" for w'
  proof -
    from that
    have e: "w' = ?w0\<lparr>mThreadManager := mThreadManager w', mThreadId := mThreadId w'\<rparr>"
      unfolding sameSlots_def .
    have "?w0\<lparr>mThreadManager := mThreadManager w', mThreadId := mThreadId w'\<rparr> =
        w\<lparr>mThreadManager := mThreadManager w', mThreadId := mThreadId w',
          spWIdGenerator := Some WIdGenerator\<rparr>"
      by simp
    with e have "w' = w\<lparr>mThreadManager := mThreadManager w', mThreadId := mThreadId w',
        spWIdGenerator := Some WIdGenerator\<rparr>"
      by (rule trans)
    then show ?thesis
      by (intro exI [of _ "mThreadManager w'"] exI [of _ "mThreadId w'"]
            exI [of _ "Some WIdGenerator"])
  qed
  have "\<exists>tm t g. snd (case ?r of Inl (e, w1) \<Rightarrow> (Inl e, w1)
                        | Inr (w1, queueIn, queueOut) \<Rightarrow> (Inr (), w1)) =
     w\<lparr>mThreadManager := tm, mThreadId := t, spWIdGenerator := g\<rparr>"
  proof (cases ?r)
    case (Inl x)
    obtain e w1 where x: "x = (e, w1)" by (cases x) auto
    from f Inl x have "sameSlots ?w0 w1" by simp
    from built [OF this] Inl x show ?thesis by simp
  next
    case (Inr b)
    obtain w1 qi qo where b: "b = (w1, qi, qo)" by (cases b) auto
    from f Inr b have "sameSlots ?w0 w1" by simp
    from built [OF this] Inr b show ?thesis by simp
  qed
  with own show ?thesis
    by (simp add: configureThreadManager_def Let_def)
qed

subsection \<open>The stages that the graph builder passes to the thread manager\<close>

lemma tm_add_addIf: "tm_add = tm_addIf stageError"
  by (intro ext) (simp add: tm_add_def tm_addIf_def stageError_def)

lemma tm_record_addIf: "tm_record = tm_addIf (\<lambda>g s. None)"
  by (intro ext) (simp add: tm_record_def tm_addIf_def)

lemma firstError_append:
  "firstError c g (a @ b) =
     (case firstError c g a of Some e \<Rightarrow> Some e | None \<Rightarrow> firstError c (g @ a) b)"
  by (induction a arbitrary: g) (simp_all split: option.splits)

lemma firstError_no_check [simp]: "firstError (\<lambda>g s. None) g new = None"
  by (induction new arbitrary: g) simp_all

lemma mThreadManager_add_addIf:
  "mThreadManager_add (tm_addIf c) tid ws qi qo w =
     (case c (graph w) \<lparr>threadId = tid, units = ws, queueInId = qi, queueOutId = qo\<rparr> of
        Some e \<Rightarrow> (Inl e, w)
      | None \<Rightarrow>
          (Inr (),
           extended [\<lparr>threadId = tid, units = ws, queueInId = qi, queueOutId = qo\<rparr>]
             (mThreadId w) w))"
  by (simp add: mThreadManager_add_def tm_addIf_def extended_def split: option.splits)

lemma addOnOwnThread_addIf:
  "addOnOwnThread (tm_addIf c) ws (w, qi, qo) =
     (case c (graph w)
             \<lparr>threadId = mThreadId w, units = ws, queueInId = qi, queueOutId = qo\<rparr> of
        Some e \<Rightarrow> Inl (e, w)
      | None \<Rightarrow>
          Inr (extended [\<lparr>threadId = mThreadId w, units = ws, queueInId = qi, queueOutId = qo\<rparr>]
                 (nextThreadId w) w,
               qi + 1, qo + 1))"
  by (simp add: addOnOwnThread_def mThreadManager_add_addIf threadIdPP_extended
      split: option.splits)

lemma adds_nil: "adds c (Inr (w, q, q + 1)) w [] (mThreadId w) q"
  by (simp add: adds_def extended_nil)

lemma adds_one:
  "adds c (addOnOwnThread (tm_addIf c) ws (w, q, q + 1)) w
     [\<lparr>threadId = mThreadId w, units = ws, queueInId = q, queueOutId = q + 1\<rparr>]
     (nextThreadId w) (q + 1)"
  by (simp add: adds_def addOnOwnThread_addIf split: option.splits)

lemma adds_thenStage:
  assumes "adds c r w new1 t1 q1"
    and "adds c (f (extended new1 t1 w, q1, q1 + 1)) (extended new1 t1 w) new2 t2 q2"
  shows "adds c (thenStage r f) w (new1 @ new2) t2 q2"
proof (cases "firstError c (graph w) new1")
  case None
  with assms(1) have r: "r = Inr (extended new1 t1 w, q1, q1 + 1)"
    by (simp add: adds_def)
  from assms(2) None show ?thesis
    by (auto simp: adds_def firstError_append thenStage_def r split: option.splits)
next
  case (Some e)
  with assms(1) obtain w' where "r = Inl (e, w')"
    by (auto simp: adds_def)
  with Some show ?thesis
    by (simp add: adds_def firstError_append thenStage_def)
qed

lemma addPoses_adds:
  "\<exists>new.
       (firstError c (graph w) new = None \<longrightarrow>
          addPoses (tm_addIf c) ps qi qo w =
            (Inr (), extended new ((bump (mMultiThreadEnabled w) ^^ length ps) (mThreadId w)) w))
     \<and> (\<forall>e. firstError c (graph w) new = Some e \<longrightarrow>
          (\<exists>w'. addPoses (tm_addIf c) ps qi qo w = (Inl e, w')))
     \<and> map units new = ps
     \<and> (\<forall>s\<in>set new. queueInId s = qi \<and> queueOutId s = qo)
     \<and> map threadId new = stageIds (mMultiThreadEnabled w) (mThreadId w) (length ps)"
proof (induction ps arbitrary: w)
  case Nil
  show ?case by (intro exI [of _ "[]"]) (simp add: extended_nil)
next
  case (Cons p ps)
  let ?m = "mMultiThreadEnabled w"
  let ?S = "\<lparr>threadId = mThreadId w, units = p, queueInId = qi, queueOutId = qo\<rparr>"
  let ?w1 = "extended [?S] (nextThreadId w) w"
  have "\<exists>new.
       (firstError c (graph w @ [?S]) new = None \<longrightarrow>
          addPoses (tm_addIf c) ps qi qo ?w1 =
            (Inr (), extended new ((bump ?m ^^ length ps) (nextThreadId w)) ?w1))
     \<and> (\<forall>e. firstError c (graph w @ [?S]) new = Some e \<longrightarrow>
          (\<exists>w'. addPoses (tm_addIf c) ps qi qo ?w1 = (Inl e, w')))
     \<and> map units new = ps
     \<and> (\<forall>s\<in>set new. queueInId s = qi \<and> queueOutId s = qo)
     \<and> map threadId new = stageIds ?m (nextThreadId w) (length ps)"
    using Cons.IH [of ?w1] by simp
  then obtain new where
    h: "firstError c (graph w @ [?S]) new = None \<longrightarrow>
          addPoses (tm_addIf c) ps qi qo ?w1 =
            (Inr (), extended new ((bump ?m ^^ length ps) (nextThreadId w)) ?w1)"
       "\<forall>e. firstError c (graph w @ [?S]) new = Some e \<longrightarrow>
          (\<exists>w'. addPoses (tm_addIf c) ps qi qo ?w1 = (Inl e, w'))"
       "map units new = ps"
       "\<forall>s\<in>set new. queueInId s = qi \<and> queueOutId s = qo"
       "map threadId new = stageIds ?m (nextThreadId w) (length ps)"
    by (elim exE conjE) (rule that)
  have a1: "firstError c (graph w) (?S # new) = None \<longrightarrow>
          addPoses (tm_addIf c) (p # ps) qi qo w =
            (Inr (), extended (?S # new) ((bump ?m ^^ length (p # ps)) (mThreadId w)) w)"
    using h(1)
    by (auto simp: mThreadManager_add_addIf threadIdPP_extended funpow_swap1
        split: option.splits)
  have a2: "\<forall>e. firstError c (graph w) (?S # new) = Some e \<longrightarrow>
          (\<exists>w'. addPoses (tm_addIf c) (p # ps) qi qo w = (Inl e, w'))"
    using h(2)
    by (auto simp: mThreadManager_add_addIf threadIdPP_extended split: option.splits)
  have b: "map units (?S # new) = p # ps" using h(3) by simp
  have c: "\<forall>s\<in>set (?S # new). queueInId s = qi \<and> queueOutId s = qo" using h(4) by simp
  have d: "map threadId (?S # new) = stageIds ?m (mThreadId w) (length (p # ps))"
    using h(5) by simp
  show ?case
    by (rule exI [of _ "?S # new"]) (use a1 a2 b c d in blast)
qed

lemma inputWorkersAux_Inr:
  assumes "mUserInputWs w \<noteq> [] \<or> wDatumProducer w \<noteq> None \<or> asyncIngress w"
  shows "inputWorkersAux w = Inr (ingressWorkers w)"
  using assms by (auto simp: inputWorkersAux_def ingressWorkers_def asyncIngress_def)

lemma addInputStages_adds:
  assumes "mUserInputWs w \<noteq> [] \<or> wDatumProducer w \<noteq> None \<or> asyncIngress w"
  shows "\<exists>new q.
       adds c (addInputStages (tm_addIf c) (w, qi, qi + 1)) w new
         ((bump (mMultiThreadEnabled w) ^^ length new) (mThreadId w)) q
     \<and> new \<noteq> []
     \<and> concat (map units new) =
         ingressWorkers w @ [spWIdGenerator w, spWCvMatToOpInput w, spWCvMatToOpOutput w]
     \<and> spWIdGenerator w \<in> set (units (last new))
     \<and> queueOutId (last new) = q
     \<and> map threadId new = stageIds (mMultiThreadEnabled w) (mThreadId w) (length new)
     \<and> (\<forall>s\<in>set new. queueOutId s = queueInId s + 1 \<and> unat (queueInId s) \<le> unat qi + 1)
     \<and> unat q \<le> unat qi + 2
     \<and> length new \<le> 2"
proof (cases "mUserInputWs w \<noteq> [] \<and> mUserInputWsOnNewThread w")
  case True
  let ?m = "mMultiThreadEnabled w"
  let ?S1 = "\<lparr>threadId = mThreadId w, units = mUserInputWs w, queueInId = qi, queueOutId = qi + 1\<rparr>"
  let ?S2 = "\<lparr>threadId = nextThreadId w,
              units = [spWIdGenerator w, spWCvMatToOpInput w, spWCvMatToOpOutput w],
              queueInId = qi + 1, queueOutId = qi + 1 + 1\<rparr>"
  let ?w1 = "extended [?S1] (nextThreadId w) w"
  have a1: "adds c (addOnOwnThread (tm_addIf c) (mUserInputWs w) (w, qi, qi + 1)) w [?S1]
      (nextThreadId w) (qi + 1)"
    by (rule adds_one)
  let ?f = "\<lambda>(w1, queueIn1, queueOut1).
          addOnOwnThread (tm_addIf c)
            [spWIdGenerator w1, spWCvMatToOpInput w1, spWCvMatToOpOutput w1]
            (w1, queueIn1, queueOut1)"
  have a2: "adds c (?f (?w1, qi + 1, qi + 1 + 1))
      ?w1 [?S2] (bump ?m (nextThreadId w)) (qi + 1 + 1)"
    using adds_one [of c "[spWIdGenerator w, spWCvMatToOpInput w, spWCvMatToOpOutput w]" ?w1
        "qi + 1"]
    by simp
  have "adds c (addInputStages (tm_addIf c) (w, qi, qi + 1)) w ([?S1] @ [?S2])
      (bump ?m (nextThreadId w)) (qi + 1 + 1)"
    using adds_thenStage [where f = ?f, OF a1 a2] True by (simp add: addInputStages_def)
  then have 1: "adds c (addInputStages (tm_addIf c) (w, qi, qi + 1)) w [?S1, ?S2]
      ((bump ?m ^^ length [?S1, ?S2]) (mThreadId w)) (qi + 2)"
    by (simp add: ac_simps)
  have 2: "\<forall>s\<in>set [?S1, ?S2]. queueOutId s = queueInId s + 1 \<and> unat (queueInId s) \<le> unat qi + 1"
    using unat_plus_le [of qi 1] by simp
  have 3: "unat (qi + 2) \<le> unat qi + 2"
    using unat_plus_le [of qi 2] by simp
  have 4: "concat (map units [?S1, ?S2]) =
         ingressWorkers w @ [spWIdGenerator w, spWCvMatToOpInput w, spWCvMatToOpOutput w]"
    using True by (simp add: ingressWorkers_def)
  have 5: "map threadId [?S1, ?S2] = stageIds ?m (mThreadId w) (length [?S1, ?S2])"
    by simp
  have 6: "queueOutId (last [?S1, ?S2]) = qi + 2" by simp
  have 7: "spWIdGenerator w \<in> set (units (last [?S1, ?S2]))" by simp
  show ?thesis
    by (intro exI [of _ "[?S1, ?S2]"] exI [of _ "qi + 2"]) (use 1 2 3 4 5 6 7 in simp)
next
  case False
  let ?m = "mMultiThreadEnabled w"
  let ?S = "\<lparr>threadId = mThreadId w,
             units = ingressWorkers w
               @ [spWIdGenerator w, spWCvMatToOpInput w, spWCvMatToOpOutput w],
             queueInId = qi, queueOutId = qi + 1\<rparr>"
  have "adds c (addInputStages (tm_addIf c) (w, qi, qi + 1)) w [?S] (nextThreadId w) (qi + 1)"
    using False adds_one [of c "ingressWorkers w
               @ [spWIdGenerator w, spWCvMatToOpInput w, spWCvMatToOpOutput w]" w qi]
    by (auto simp: addInputStages_def inputWorkersAux_Inr [OF assms])
  then have 1: "adds c (addInputStages (tm_addIf c) (w, qi, qi + 1)) w [?S]
      ((bump ?m ^^ length [?S]) (mThreadId w)) (qi + 1)"
    by simp
  have 3: "unat (qi + 1) \<le> unat qi + 2"
    using unat_plus_le [of qi 1] by simp
  show ?thesis
    by (intro exI [of _ "[?S]"] exI [of _ "qi + 1"]) (use 1 3 in simp)
qed

lemma addPoseStages_adds:
  "\<exists>new q'.
       adds c (addPoseStages (tm_addIf c) (w, q, q + 1)) w new
         ((bump (mMultiThreadEnabled w) ^^ length new) (mThreadId w)) q'
     \<and> map units new = (if mMultiThreadEnabled w then spWPoses w else take 1 (spWPoses w))
     \<and> (\<forall>s\<in>set new. queueInId s = q \<and> queueOutId s = q + 1)
     \<and> map threadId new = stageIds (mMultiThreadEnabled w) (mThreadId w) (length new)
     \<and> unat q' \<le> unat q + 1"
proof (cases "spWPoses w")
  case Nil
  then have "adds c (addPoseStages (tm_addIf c) (w, q, q + 1)) w [] (mThreadId w) q"
    by (simp add: addPoseStages_def adds_nil)
  then show ?thesis
    using Nil by (intro exI [of _ "[]"] exI [of _ q]) simp
next
  case (Cons p ps)
  have q1: "unat (q + 1) \<le> unat q + 1"
    using unat_plus_le [of q 1] by simp
  show ?thesis
  proof (cases "mMultiThreadEnabled w")
    case True
    have "\<exists>new.
       (firstError c (graph w) new = None \<longrightarrow>
          addPoses (tm_addIf c) (p # ps) q (q + 1) w =
            (Inr (), extended new ((bump True ^^ length (p # ps)) (mThreadId w)) w))
     \<and> (\<forall>e. firstError c (graph w) new = Some e \<longrightarrow>
          (\<exists>w'. addPoses (tm_addIf c) (p # ps) q (q + 1) w = (Inl e, w')))
     \<and> map units new = p # ps
     \<and> (\<forall>s\<in>set new. queueInId s = q \<and> queueOutId s = q + 1)
     \<and> map threadId new = stageIds True (mThreadId w) (length (p # ps))"
      using addPoses_adds [where c = c and w = w and ps = "p # ps" and qi = q and qo = "q + 1"]
        True
      by (simp del: addPoses.simps)
    then obtain new where
      h: "firstError c (graph w) new = None \<longrightarrow>
          addPoses (tm_addIf c) (p # ps) q (q + 1) w =
            (Inr (), extended new ((bump True ^^ length (p # ps)) (mThreadId w)) w)"
         "\<forall>e. firstError c (graph w) new = Some e \<longrightarrow>
          (\<exists>w'. addPoses (tm_addIf c) (p # ps) q (q + 1) w = (Inl e, w'))"
         "map units new = p # ps"
         "\<forall>s\<in>set new. queueInId s = q \<and> queueOutId s = q + 1"
         "map threadId new = stageIds True (mThreadId w) (length (p # ps))"
      by (elim exE conjE) (rule that)
    have len: "length new = length (p # ps)"
      using h(3) by (metis length_map)
    have "adds c (addPoseStages (tm_addIf c) (w, q, q + 1)) w new
        ((bump True ^^ length new) (mThreadId w)) (q + 1)"
    proof (cases "firstError c (graph w) new")
      case None
      with h(1) Cons True show ?thesis
        unfolding len by (simp add: addPoseStages_def adds_def del: addPoses.simps)
    next
      case (Some e)
      with h(2) obtain w' where "addPoses (tm_addIf c) (p # ps) q (q + 1) w = (Inl e, w')"
        by blast
      with Some Cons True show ?thesis
        by (simp add: addPoseStages_def adds_def del: addPoses.simps)
    qed
    then show ?thesis
      using True Cons h(3,4,5) len q1 by (intro exI [of _ new] exI [of _ "q + 1"]) simp
  next
    case False
    let ?S = "\<lparr>threadId = mThreadId w, units = p, queueInId = q, queueOutId = q + 1\<rparr>"
    have "adds c (addPoseStages (tm_addIf c) (w, q, q + 1)) w [?S] (mThreadId w) (q + 1)"
      using Cons False
      by (simp add: addPoseStages_def adds_def mThreadManager_add_addIf split: option.splits)
    then show ?thesis
      using False Cons q1 by (intro exI [of _ "[?S]"] exI [of _ "q + 1"]) simp
  qed
qed

lemma addPostProcessingStages_adds:
  "\<exists>new q'.
       adds c (addPostProcessingStages (tm_addIf c) (w, q, q + 1)) w new
         ((bump (mMultiThreadEnabled w) ^^ length new) (mThreadId w)) q'
     \<and> concat (map units new) = mPostProcessingWs w @ mUserPostProcessingWs w @ mOutputWs w
     \<and> map threadId new = stageIds (mMultiThreadEnabled w) (mThreadId w) (length new)
     \<and> (\<forall>s\<in>set new. queueOutId s = queueInId s + 1 \<and> unat (queueInId s) \<le> unat q + 2)
     \<and> unat q' \<le> unat q + 3
     \<and> length new \<le> 3"
proof (cases "mUserPostProcessingWs w \<noteq> [] \<and> mUserPostProcessingWsOnNewThread w")
  case True
  let ?m = "mMultiThreadEnabled w"
  let ?t0 = "mThreadId w"
  have u1: "unat (q + 1) \<le> unat q + 1" using unat_plus_le [of q 1] by simp
  have u2: "unat (q + 2) \<le> unat q + 2" using unat_plus_le [of q 2] by simp
  have u3: "unat (q + 3) \<le> unat q + 3" using unat_plus_le [of q 3] by simp
  show ?thesis
  proof (cases "mPostProcessingWs w = []")
    case noPost: True
    let ?S2 = "\<lparr>threadId = ?t0, units = mUserPostProcessingWs w, queueInId = q, queueOutId = q + 1\<rparr>"
    let ?S3 = "\<lparr>threadId = bump ?m ?t0, units = mOutputWs w, queueInId = q + 1,
                queueOutId = q + 1 + 1\<rparr>"
    show ?thesis
    proof (cases "mOutputWs w = []")
      case noOut: True
      have "adds c (addPostProcessingStages (tm_addIf c) (w, q, q + 1)) w [?S2]
          ((bump ?m ^^ length [?S2]) ?t0) (q + 1)"
        using True noPost noOut
        by (auto simp: addPostProcessingStages_def addOnOwnThread_addIf thenStage_def adds_def
            split: option.splits)
      then show ?thesis
        using noPost noOut u1 by (intro exI [of _ "[?S2]"] exI [of _ "q + 1"]) simp
    next
      case out: False
      have "adds c (addPostProcessingStages (tm_addIf c) (w, q, q + 1)) w [?S2, ?S3]
          ((bump ?m ^^ length [?S2, ?S3]) ?t0) (q + 2)"
        using True noPost out
        by (auto simp: addPostProcessingStages_def addOnOwnThread_addIf thenStage_def adds_def
            split: option.splits)
      then show ?thesis
        using noPost u1 u2 by (intro exI [of _ "[?S2, ?S3]"] exI [of _ "q + 2"]) simp
    qed
  next
    case post: False
    let ?S1 = "\<lparr>threadId = ?t0, units = mPostProcessingWs w, queueInId = q, queueOutId = q + 1\<rparr>"
    let ?S2 = "\<lparr>threadId = bump ?m ?t0, units = mUserPostProcessingWs w, queueInId = q + 1,
                queueOutId = q + 1 + 1\<rparr>"
    let ?S3 = "\<lparr>threadId = bump ?m (bump ?m ?t0), units = mOutputWs w,
                queueInId = q + 1 + 1, queueOutId = q + 1 + 1 + 1\<rparr>"
    show ?thesis
    proof (cases "mOutputWs w = []")
      case noOut: True
      have "adds c (addPostProcessingStages (tm_addIf c) (w, q, q + 1)) w [?S1, ?S2]
          ((bump ?m ^^ length [?S1, ?S2]) ?t0) (q + 2)"
        using True post noOut
        by (auto simp: addPostProcessingStages_def addOnOwnThread_addIf thenStage_def adds_def
            split: option.splits)
      then show ?thesis
        using noOut u1 u2 by (intro exI [of _ "[?S1, ?S2]"] exI [of _ "q + 2"]) simp
    next
      case out: False
      have "adds c (addPostProcessingStages (tm_addIf c) (w, q, q + 1)) w [?S1, ?S2, ?S3]
          ((bump ?m ^^ length [?S1, ?S2, ?S3]) ?t0) (q + 1 + 1 + 1)"
        using True post out
        by (auto simp: addPostProcessingStages_def addOnOwnThread_addIf thenStage_def adds_def
            split: option.splits)
      then show ?thesis
        using u1 u2 u3
        by (intro exI [of _ "[?S1, ?S2, ?S3]"] exI [of _ "q + 1 + 1 + 1"])
           (simp add: add.commute [of _ q])
    qed
  qed
next
  case False
  let ?m = "mMultiThreadEnabled w"
  let ?aux = "mPostProcessingWs w @ mUserPostProcessingWs w @ mOutputWs w"
  let ?S = "\<lparr>threadId = mThreadId w, units = ?aux, queueInId = q, queueOutId = q + 1\<rparr>"
  have u1: "unat (q + 1) \<le> unat q + 3" using unat_plus_le [of q 1] by simp
  show ?thesis
  proof (cases "?aux = []")
    case True
    then have "adds c (addPostProcessingStages (tm_addIf c) (w, q, q + 1)) w []
        (mThreadId w) q"
      using False by (simp add: addPostProcessingStages_def adds_nil)
    then show ?thesis
      using True by (intro exI [of _ "[]"] exI [of _ q]) simp
  next
    case ne: False
    then have "adds c (addPostProcessingStages (tm_addIf c) (w, q, q + 1)) w [?S]
        ((bump ?m ^^ length [?S]) (mThreadId w)) (q + 1)"
      using False adds_one [of c ?aux w q] by (auto simp: addPostProcessingStages_def)
    then show ?thesis
      using u1 by (intro exI [of _ "[?S]"] exI [of _ "q + 1"]) simp
  qed
qed

lemma userOutputStages_extended [simp]:
  "userOutputStages (extended n t' w) t q = userOutputStages w t q"
  by (simp add: userOutputStages_def)

lemma guiStages_extended [simp]:
  "guiStages (extended n t' w) t q = guiStages w t q"
  by (simp add: guiStages_def)

lemma addOutput_adds:
  "\<exists>t1 q1.
       adds c (addUserOutputStage (tm_addIf c) (w, q, q + 1)) w
         (userOutputStages w (mThreadId w) q) t1 q1
     \<and> (\<exists>t2 q2.
          adds c
            (addGuiStage (tm_addIf c)
               (extended (userOutputStages w (mThreadId w) q) t1 w, q1, q1 + 1))
            (extended (userOutputStages w (mThreadId w) q) t1 w)
            (guiStages w (mThreadId w) q) t2 q2)"
proof -
  let ?m = "mMultiThreadEnabled w"
  let ?t1 = "if mUserOutputWs w \<noteq> [] \<and> mUserOutputWsOnNewThread w then nextThreadId w else mThreadId w"
  let ?q1 = "if mUserOutputWs w = [] then q else q + 1"
  have 1: "adds c (addUserOutputStage (tm_addIf c) (w, q, q + 1)) w
      (userOutputStages w (mThreadId w) q) ?t1 ?q1"
    by (simp add: addUserOutputStage_def addOnOwnThread_addIf mThreadManager_add_addIf
        userOutputStages_def extended_nil adds_def split: option.splits)
  let ?w1 = "extended (userOutputStages w (mThreadId w) q) ?t1 w"
  let ?t2 = "if spWGui w = None then ?t1 else bump ?m ?t1"
  let ?q2 = "if spWGui w = None then ?q1 else ?q1 + 1"
  have 2: "adds c (addGuiStage (tm_addIf c) (?w1, ?q1, ?q1 + 1)) ?w1
      (guiStages w (mThreadId w) q) ?t2 ?q2"
    by (simp add: addGuiStage_def addOnOwnThread_addIf guiStages_def adds_def extended_nil
        split: option.splits)
  from 1 2 show ?thesis by blast
qed

subsection \<open>The checks of the graph builder\<close>


lemma configureThreadManager_checks:
  "configureThreadManager tmAdd w =
     (if \<not> isConfigured w then (Inl (ConfigurationError msgConfigureFirst), w)
      else if numProducers w \<noteq> 1 \<and> \<not> asyncIngress w
        then (Inl (ConfigurationError msgOneProducer), w)
      else if numConsumers w = 0 \<and> \<not> asyncEgress w
        then (Inl (ConfigurationError msgNoOutput), w)
      else
        (let w0 = w\<lparr>mThreadManager := tm_reset (mThreadManager w),
                     mThreadId := 0,
                     spWIdGenerator := Some WIdGenerator\<rparr>
         in case thenStage (thenStage (thenStage (thenStage
                   (addInputStages tmAdd (w0, 0, 1))
                   (addPoseStages tmAdd))
                   (addPostProcessingStages tmAdd))
                   (addUserOutputStage tmAdd))
                   (addGuiStage tmAdd) of
              Inl (e, w1) \<Rightarrow> (Inl e, w1)
            | Inr (w1, queueIn, queueOut) \<Rightarrow> (Inr (), w1)))"
proof -
  have c1: "(spWCvMatToOpInput w = None \<or> spWCvMatToOpOutput w = None) = (\<not> isConfigured w)"
    by (simp add: isConfigured_def)
  have c2: "(((wDatumProducer w = None) = (mUserInputWs w = []))
              \<and> mThreadManagerMode w \<noteq> Asynchronous \<and> mThreadManagerMode w \<noteq> AsynchronousIn)
            = (numProducers w \<noteq> 1 \<and> \<not> asyncIngress w)"
    by (simp add: numProducers_def asyncIngress_def)
  have c3: "(mOutputWs w = [] \<and> mUserOutputWs w = [] \<and> spWGui w = None
              \<and> mThreadManagerMode w \<noteq> Asynchronous \<and> mThreadManagerMode w \<noteq> AsynchronousOut)
            = (numConsumers w = 0 \<and> \<not> asyncEgress w)"
    by (simp add: numConsumers_def asyncEgress_def)
  show ?thesis
    unfolding configureThreadManager_def c1 c2 c3 by (rule refl)
qed

lemma configureThreadManager_Inr:
  assumes "fst (configureThreadManager tmAdd w) = Inr u"
  shows "isConfigured w" and "numProducers w = 1 \<or> asyncIngress w"
    and "numConsumers w \<noteq> 0 \<or> asyncEgress w"
  using assms by (auto simp: configureThreadManager_checks split: if_splits)

subsection \<open>The graph\<close>

text \<open>
  What \<^verbatim>\<open>configureThreadManager\<close> does once its three checks have passed. It passes to
  the thread manager, which starts empty: the input stages, the pose stages, the
  post-processing and output stages, the user's output stage and the GUI stage. When the
  thread manager accepts them all, they are the graph; otherwise the function raises the
  first error of the thread manager.
\<close>

lemma configureThreadManager_adds:
  assumes "isConfigured w" and "numProducers w = 1 \<or> asyncIngress w"
    and "numConsumers w \<noteq> 0 \<or> asyncEgress w"
  shows "\<exists>inS poseS postS t q t'.
      (firstError c [] (inS @ poseS @ postS @ userOutputStages w t q @ guiStages w t q) = None
         \<longrightarrow> configureThreadManager (tm_addIf c) w =
               (Inr (),
                extended (inS @ poseS @ postS @ userOutputStages w t q @ guiStages w t q) t'
                  (w\<lparr>mThreadManager := tm_reset (mThreadManager w), mThreadId := 0,
                     spWIdGenerator := Some WIdGenerator\<rparr>)))
    \<and> (\<forall>e. firstError c [] (inS @ poseS @ postS @ userOutputStages w t q @ guiStages w t q)
               = Some e
         \<longrightarrow> fst (configureThreadManager (tm_addIf c) w) = Inl e)
    \<and> inS \<noteq> []
    \<and> concat (map units inS) =
        ingressWorkers w @ [Some WIdGenerator, spWCvMatToOpInput w, spWCvMatToOpOutput w]
    \<and> Some WIdGenerator \<in> set (units (last inS))
    \<and> map units poseS = (if mMultiThreadEnabled w then spWPoses w else take 1 (spWPoses w))
    \<and> (\<forall>s\<in>set poseS. queueInId s = queueOutId (last inS))
    \<and> concat (map units postS) = mPostProcessingWs w @ mUserPostProcessingWs w @ mOutputWs w
    \<and> map threadId (inS @ poseS @ postS) =
        stageIds (mMultiThreadEnabled w) 0 (length (inS @ poseS @ postS))
    \<and> t = (bump (mMultiThreadEnabled w) ^^ length (inS @ poseS @ postS)) 0
    \<and> (\<forall>s\<in>set (inS @ poseS @ postS).
          queueOutId s = queueInId s + 1 \<and> unat (queueInId s) \<le> 5)
    \<and> unat q \<le> 6
    \<and> length inS \<le> 2 \<and> length postS \<le> 3"
proof -
  let ?w0 = "w\<lparr>mThreadManager := tm_reset (mThreadManager w), mThreadId := 0,
                spWIdGenerator := Some WIdGenerator\<rparr>"
  let ?m = "mMultiThreadEnabled w"
  let ?add = "tm_addIf c :: ('a, 'b) tmAdd"
  have iw: "ingressWorkers ?w0 = ingressWorkers w" by (simp add: ingressWorkers_def)
  have inp: "mUserInputWs ?w0 \<noteq> [] \<or> wDatumProducer ?w0 \<noteq> None \<or> asyncIngress ?w0"
    using assms(2) by (auto simp: numProducers_def asyncIngress_def split: if_splits)
  have "\<exists>new q.
       adds c (addInputStages ?add (?w0, 0, 1)) ?w0 new ((bump ?m ^^ length new) 0) q
     \<and> new \<noteq> []
     \<and> concat (map units new) =
         ingressWorkers w @ [Some WIdGenerator, spWCvMatToOpInput w, spWCvMatToOpOutput w]
     \<and> Some WIdGenerator \<in> set (units (last new))
     \<and> queueOutId (last new) = q
     \<and> map threadId new = stageIds ?m 0 (length new)
     \<and> (\<forall>s\<in>set new. queueOutId s = queueInId s + 1 \<and> unat (queueInId s) \<le> 1)
     \<and> unat q \<le> 2
     \<and> length new \<le> 2"
    using addInputStages_adds [OF inp, of c 0] by (simp add: iw numeral_2_eq_2)
  then obtain inS q1 where
    i: "adds c (addInputStages ?add (?w0, 0, 1)) ?w0 inS ((bump ?m ^^ length inS) 0) q1"
       "inS \<noteq> []"
       "concat (map units inS) =
         ingressWorkers w @ [Some WIdGenerator, spWCvMatToOpInput w, spWCvMatToOpOutput w]"
       "Some WIdGenerator \<in> set (units (last inS))"
       "queueOutId (last inS) = q1"
       "map threadId inS = stageIds ?m 0 (length inS)"
       "\<forall>s\<in>set inS. queueOutId s = queueInId s + 1 \<and> unat (queueInId s) \<le> 1"
       "unat q1 \<le> 2"
       "length inS \<le> 2"
    by (elim exE conjE) (rule that)
  let ?t1 = "(bump ?m ^^ length inS) 0"
  let ?w1 = "extended inS ?t1 ?w0"
  have "\<exists>new q'.
       adds c (addPoseStages ?add (?w1, q1, q1 + 1)) ?w1 new ((bump ?m ^^ length new) ?t1) q'
     \<and> map units new = (if ?m then spWPoses w else take 1 (spWPoses w))
     \<and> (\<forall>s\<in>set new. queueInId s = q1 \<and> queueOutId s = q1 + 1)
     \<and> map threadId new = stageIds ?m ?t1 (length new)
     \<and> unat q' \<le> unat q1 + 1"
    using addPoseStages_adds [of c ?w1 q1] by (simp cong: if_cong)
  then obtain poseS q2 where
    p: "adds c (addPoseStages ?add (?w1, q1, q1 + 1)) ?w1 poseS
          ((bump ?m ^^ length poseS) ?t1) q2"
       "map units poseS = (if ?m then spWPoses w else take 1 (spWPoses w))"
       "\<forall>s\<in>set poseS. queueInId s = q1 \<and> queueOutId s = q1 + 1"
       "map threadId poseS = stageIds ?m ?t1 (length poseS)"
       "unat q2 \<le> unat q1 + 1"
    by (elim exE conjE) (rule that)
  let ?t2 = "(bump ?m ^^ length poseS) ?t1"
  let ?w2 = "extended (inS @ poseS) ?t2 ?w0"
  have "\<exists>new q'.
       adds c (addPostProcessingStages ?add (?w2, q2, q2 + 1)) ?w2 new
         ((bump ?m ^^ length new) ?t2) q'
     \<and> concat (map units new) = mPostProcessingWs w @ mUserPostProcessingWs w @ mOutputWs w
     \<and> map threadId new = stageIds ?m ?t2 (length new)
     \<and> (\<forall>s\<in>set new. queueOutId s = queueInId s + 1 \<and> unat (queueInId s) \<le> unat q2 + 2)
     \<and> unat q' \<le> unat q2 + 3
     \<and> length new \<le> 3"
    using addPostProcessingStages_adds [of c ?w2 q2] by simp
  then obtain postS q3 where
    pp: "adds c (addPostProcessingStages ?add (?w2, q2, q2 + 1)) ?w2 postS
           ((bump ?m ^^ length postS) ?t2) q3"
        "concat (map units postS) = mPostProcessingWs w @ mUserPostProcessingWs w @ mOutputWs w"
        "map threadId postS = stageIds ?m ?t2 (length postS)"
        "\<forall>s\<in>set postS. queueOutId s = queueInId s + 1 \<and> unat (queueInId s) \<le> unat q2 + 2"
        "unat q3 \<le> unat q2 + 3"
        "length postS \<le> 3"
    by (elim exE conjE) (rule that)
  let ?t3 = "(bump ?m ^^ length postS) ?t2"
  let ?w3 = "extended (inS @ poseS @ postS) ?t3 ?w0"
  have uo0: "userOutputStages ?w0 ?t3 q3 = userOutputStages w ?t3 q3"
    by (simp add: userOutputStages_def)
  have gs0: "guiStages ?w0 ?t3 q3 = guiStages w ?t3 q3"
    by (simp add: guiStages_def)
  let ?uo = "userOutputStages w ?t3 q3"
  let ?gs = "guiStages w ?t3 q3"
  have "\<exists>t1 q1.
       adds c (addUserOutputStage ?add (?w3, q3, q3 + 1)) ?w3 ?uo t1 q1
     \<and> (\<exists>t2 q2.
          adds c (addGuiStage ?add (extended (inS @ poseS @ postS @ ?uo) t1 ?w0, q1, q1 + 1))
            (extended (inS @ poseS @ postS @ ?uo) t1 ?w0) ?gs t2 q2)"
    using addOutput_adds [of c ?w3 q3] by (simp add: uo0 gs0)
  then obtain t4 q4 t5 q5 where
    o: "adds c (addUserOutputStage ?add (?w3, q3, q3 + 1)) ?w3 ?uo t4 q4"
       "adds c (addGuiStage ?add (extended (inS @ poseS @ postS @ ?uo) t4 ?w0, q4, q4 + 1))
          (extended (inS @ poseS @ postS @ ?uo) t4 ?w0) ?gs t5 q5"
    by (elim exE conjE) (rule that)
  let ?r1 = "addInputStages ?add (?w0, 0, 1)"
  let ?r2 = "thenStage ?r1 (addPoseStages ?add)"
  let ?r3 = "thenStage ?r2 (addPostProcessingStages ?add)"
  let ?r4 = "thenStage ?r3 (addUserOutputStage ?add)"
  let ?r5 = "thenStage ?r4 (addGuiStage ?add)"
  have s2: "adds c ?r2 ?w0 (inS @ poseS) ?t2 q2"
    using adds_thenStage [where f = "addPoseStages ?add", OF i(1) p(1)] .
  have s3: "adds c ?r3 ?w0 ((inS @ poseS) @ postS) ?t3 q3"
    using adds_thenStage [where f = "addPostProcessingStages ?add", OF s2 pp(1)] .
  then have s3': "adds c ?r3 ?w0 (inS @ poseS @ postS) ?t3 q3" by simp
  have s4: "adds c ?r4 ?w0 ((inS @ poseS @ postS) @ ?uo) t4 q4"
    using adds_thenStage [where f = "addUserOutputStage ?add", OF s3' o(1)] .
  then have s4': "adds c ?r4 ?w0 (inS @ poseS @ postS @ ?uo) t4 q4" by simp
  have s5: "adds c ?r5 ?w0 ((inS @ poseS @ postS @ ?uo) @ ?gs) t5 q5"
    using adds_thenStage [where f = "addGuiStage ?add", OF s4' o(2)] .
  let ?all = "inS @ poseS @ postS @ ?uo @ ?gs"
  from s5 have s: "adds c ?r5 ?w0 ?all t5 q5" by simp
  have pass: "configureThreadManager ?add w =
      (case ?r5 of Inl (e, w1) \<Rightarrow> (Inl e, w1) | Inr (w1, queueIn, queueOut) \<Rightarrow> (Inr (), w1))"
    using assms by (auto simp: configureThreadManager_checks)
  have 1: "firstError c [] ?all = None \<longrightarrow>
      configureThreadManager ?add w = (Inr (), extended ?all t5 ?w0)"
    using s unfolding pass by (auto simp: adds_def tm_reset_def split: option.splits)
  have 2: "\<forall>e. firstError c [] ?all = Some e \<longrightarrow> fst (configureThreadManager ?add w) = Inl e"
    using s unfolding pass by (auto simp: adds_def tm_reset_def split: option.splits)
  have 6: "\<forall>s\<in>set poseS. queueInId s = queueOutId (last inS)"
    using p(3) i(5) by simp
  have t3: "?t3 = (bump ?m ^^ length (inS @ poseS @ postS)) 0"
    by (simp add: funpow_funpow ac_simps)
  have ids: "map threadId (inS @ poseS @ postS) = stageIds ?m 0 (length (inS @ poseS @ postS))"
    using i(6) p(4) pp(3) by (simp add: stageIds_append)
  have b2: "unat q2 \<le> 3" using p(5) i(8) by simp
  have b3: "unat q3 \<le> 6" using pp(5) b2 by simp
  have qs: "\<forall>s\<in>set (inS @ poseS @ postS).
      queueOutId s = queueInId s + 1 \<and> unat (queueInId s) \<le> 5"
  proof
    fix s assume "s \<in> set (inS @ poseS @ postS)"
    then consider "s \<in> set inS" | "s \<in> set poseS" | "s \<in> set postS" by auto
    then show "queueOutId s = queueInId s + 1 \<and> unat (queueInId s) \<le> 5"
    proof cases
      case 1
      with i(7) show ?thesis by fastforce
    next
      case 2
      with p(3) i(8) show ?thesis by fastforce
    next
      case 3
      with pp(4) b2 show ?thesis by fastforce
    qed
  qed
  show ?thesis
    by (intro exI [of _ inS] exI [of _ poseS] exI [of _ postS] exI [of _ ?t3] exI [of _ q3]
          exI [of _ t5])
       (use 1 2 i(2) i(3) i(4) p(2) 6 pp(2) ids t3 qs b3 i(9) pp(6) in blast)
qed

text \<open>
  What a successful \<^verbatim>\<open>configureThreadManager\<close> leaves: a graph made of the input stages,
  the pose stages, the post-processing and output stages, the user's output stage and the GUI
  stage, all of which the thread manager has accepted.
\<close>

lemma configureThreadManager_graph:
  assumes "fst (configureThreadManager (tm_addIf c) w) = Inr ()"
  shows "\<exists>inS poseS postS t q.
      graph (snd (configureThreadManager (tm_addIf c) w)) =
        inS @ poseS @ postS @ userOutputStages w t q @ guiStages w t q
    \<and> firstError c [] (inS @ poseS @ postS @ userOutputStages w t q @ guiStages w t q) = None
    \<and> inS \<noteq> []
    \<and> concat (map units inS) =
        ingressWorkers w @ [Some WIdGenerator, spWCvMatToOpInput w, spWCvMatToOpOutput w]
    \<and> Some WIdGenerator \<in> set (units (last inS))
    \<and> map units poseS = (if mMultiThreadEnabled w then spWPoses w else take 1 (spWPoses w))
    \<and> (\<forall>s\<in>set poseS. queueInId s = queueOutId (last inS))
    \<and> concat (map units postS) = mPostProcessingWs w @ mUserPostProcessingWs w @ mOutputWs w
    \<and> (\<not> mMultiThreadEnabled w \<longrightarrow> t = 0 \<and> (\<forall>s\<in>set (inS @ poseS @ postS). threadId s = 0))
    \<and> map threadId (inS @ poseS @ postS) =
        stageIds (mMultiThreadEnabled w) 0 (length (inS @ poseS @ postS))
    \<and> t = (bump (mMultiThreadEnabled w) ^^ length (inS @ poseS @ postS)) 0
    \<and> (\<forall>s\<in>set (inS @ poseS @ postS).
          queueOutId s = queueInId s + 1 \<and> unat (queueInId s) \<le> 5)
    \<and> unat q \<le> 6
    \<and> length inS \<le> 2 \<and> length postS \<le> 3"
proof -
  let ?w0 = "w\<lparr>mThreadManager := tm_reset (mThreadManager w), mThreadId := 0,
                spWIdGenerator := Some WIdGenerator\<rparr>"
  from configureThreadManager_adds [OF configureThreadManager_Inr [OF assms], of c]
  obtain inS poseS postS t q t' where
    ok: "firstError c [] (inS @ poseS @ postS @ userOutputStages w t q @ guiStages w t q) = None
         \<longrightarrow> configureThreadManager (tm_addIf c) w =
               (Inr (),
                extended (inS @ poseS @ postS @ userOutputStages w t q @ guiStages w t q) t' ?w0)"
    and bad: "\<forall>e. firstError c [] (inS @ poseS @ postS @ userOutputStages w t q @ guiStages w t q)
               = Some e
         \<longrightarrow> fst (configureThreadManager (tm_addIf c) w) = Inl e"
    and r: "inS \<noteq> []"
      "concat (map units inS) =
        ingressWorkers w @ [Some WIdGenerator, spWCvMatToOpInput w, spWCvMatToOpOutput w]"
      "Some WIdGenerator \<in> set (units (last inS))"
      "map units poseS = (if mMultiThreadEnabled w then spWPoses w else take 1 (spWPoses w))"
      "\<forall>s\<in>set poseS. queueInId s = queueOutId (last inS)"
      "concat (map units postS) = mPostProcessingWs w @ mUserPostProcessingWs w @ mOutputWs w"
    and ids: "map threadId (inS @ poseS @ postS) =
        stageIds (mMultiThreadEnabled w) 0 (length (inS @ poseS @ postS))"
      "t = (bump (mMultiThreadEnabled w) ^^ length (inS @ poseS @ postS)) 0"
    and qs: "\<forall>s\<in>set (inS @ poseS @ postS).
          queueOutId s = queueInId s + 1 \<and> unat (queueInId s) \<le> 5"
      "unat q \<le> 6" "length inS \<le> 2" "length postS \<le> 3"
    by (elim exE conjE) (rule that)
  have none: "firstError c [] (inS @ poseS @ postS @ userOutputStages w t q @ guiStages w t q)
      = None"
  proof (cases "firstError c [] (inS @ poseS @ postS @ userOutputStages w t q @ guiStages w t q)")
    case None
    then show ?thesis .
  next
    case (Some e)
    with bad assms show ?thesis by simp
  qed
  with ok have "snd (configureThreadManager (tm_addIf c) w) =
      extended (inS @ poseS @ postS @ userOutputStages w t q @ guiStages w t q) t' ?w0"
    by simp
  then have g: "graph (snd (configureThreadManager (tm_addIf c) w)) =
        inS @ poseS @ postS @ userOutputStages w t q @ guiStages w t q"
    by (simp add: tm_reset_def)
  have z: "\<not> mMultiThreadEnabled w \<longrightarrow> t = 0 \<and> (\<forall>s\<in>set (inS @ poseS @ postS). threadId s = 0)"
  proof
    assume d: "\<not> mMultiThreadEnabled w"
    then have "map threadId (inS @ poseS @ postS) = replicate (length (inS @ poseS @ postS)) 0"
      using ids(1) by (simp add: stageIds_False)
    then have "\<forall>x\<in>set (map threadId (inS @ poseS @ postS)). x = 0"
      by (metis in_set_replicate)
    then have "\<forall>s\<in>set (inS @ poseS @ postS). threadId s = 0"
      by auto
    moreover have "t = 0" using ids(2) d by simp
    ultimately show "t = 0 \<and> (\<forall>s\<in>set (inS @ poseS @ postS). threadId s = 0)" by blast
  qed
  show ?thesis
    by (intro exI [of _ inS] exI [of _ poseS] exI [of _ postS] exI [of _ t] exI [of _ q])
       (use g none r z ids qs in blast)
qed

subsection \<open>The id generator stays in its slot\<close>

lemma emplaceBackEach_members:
  assumes "x \<in> set (concat (emplaceBackEach c mk xs))"
  shows "x \<in> set (concat xs) \<or> x \<in> Some ` range mk"
proof (cases c)
  case True
  with assms obtain i where i: "i < length xs" "x \<in> set (xs ! i @ [Some (mk i)])"
    by (auto simp: emplaceBackEach_def)
  then show ?thesis
    using nth_mem [OF i(1)] by auto
next
  case False
  with assms show ?thesis by (simp add: emplaceBackEach_def)
qed

lemma emplaceBackEach_no_idGenerator:
  assumes "Some WIdGenerator \<notin> set (concat xs)" and "WIdGenerator \<notin> range mk"
  shows "Some WIdGenerator \<notin> set (concat (emplaceBackEach c mk xs))"
  using emplaceBackEach_members [of "Some WIdGenerator" c mk xs] assms by blast

lemma buildPoses_no_idGenerator:
  "Some WIdGenerator \<notin> set (concat (buildPoses p f h))"
proof -
  let ?p0 = "map (\<lambda>i. [Some (WPoseExtractor i)]) [0..<nat (gpuNumber p)] :: 'a TWorker list list"
  have 0: "Some WIdGenerator \<notin> set (concat ?p0)" by auto
  have r: "WIdGenerator \<notin> range WFaceExtractor" "WIdGenerator \<notin> range WHandExtractor"
    "WIdGenerator \<notin> range WPoseRenderer" "WIdGenerator \<notin> range WHandRenderer"
    "WIdGenerator \<notin> range WFaceRenderer"
    by auto
  show ?thesis
    unfolding buildPoses_def Let_def
    by (intro emplaceBackEach_no_idGenerator 0 r)
qed

lemma buildWs_no_idGenerator:
  "Some WIdGenerator \<notin> set (buildPostProcessingWs p fin pr wPoses)"
  "Some WIdGenerator \<notin> set (buildOutputWs fmt i out)"
  by (simp_all add: buildPostProcessingWs_def buildOutputWs_def emplaceBackIf_def Let_def)

subsection \<open>What configure leaves\<close>

lemma length_emplaceBackEach [simp]: "length (emplaceBackEach c mk xs) = length xs"
  by (simp add: emplaceBackEach_def)

lemma length_buildPoses [simp]:
  "length (buildPoses wrapperStructPose wrapperStructFace wrapperHandStruct) =
     nat (gpuNumber wrapperStructPose)"
  by (simp add: buildPoses_def Let_def)

text \<open>
  The area of the producer's frame is a 32-bit product: 46341 times 46341 wraps around to a
  negative number, and 65536 times -65535 to 65536. With an output size of -1 x -1
  \<^verbatim>\<open>configure\<close> refuses the first producer and accepts the second.
\<close>

lemma area_wraps:
  "sint (area \<lparr>width = 46341, height = 46341\<rparr>) = - 2147479015"
  "sint (area \<lparr>width = 65536, height = - 65535\<rparr>) = 65536"
  "finalOutputSizeOf (p\<lparr>outputSize := \<lparr>width = - 1, height = - 1\<rparr>\<rparr>)
     (i\<lparr>producerSharedPtr := Some \<lparr>frameWidth = 46341, frameHeight = 46341\<rparr>\<rparr>) =
     Inl (ConfigurationError msgImageResolution)"
  "finalOutputSizeOf (p\<lparr>outputSize := \<lparr>width = - 1, height = - 1\<rparr>\<rparr>)
     (i\<lparr>producerSharedPtr := Some \<lparr>frameWidth = 65536, frameHeight = - 65535\<rparr>\<rparr>) =
     Inr \<lparr>width = 65536, height = - 65535\<rparr>"
  by (simp_all add: area_def finalOutputSizeOf_def producerSizeOf_def)

lemma configure_Inl:
  assumes "fst (configure fmt p f h i out w) = Inl e"
  shows "snd (configure fmt p f h i out w) = w"
proof (cases "checkFlags p i out w")
  case (Some e')
  then show ?thesis by (simp add: configure_def)
next
  case None
  show ?thesis
  proof (cases "finalOutputSizeOf p i")
    case (Inl e')
    with None show ?thesis by (simp add: configure_def)
  next
    case (Inr fin)
    with None assms show ?thesis by (simp add: configure_def Let_def)
  qed
qed

lemma configure_Inr:
  assumes "fst (configure fmt p f h i out w) = Inr u"
  shows "\<exists>finalOutputSize. snd (configure fmt p f h i out w) =
       w\<lparr>mGpuNumber := gpuNumber p,
         wDatumProducer := (if producerSharedPtr i \<noteq> None then Some WDatumProducer else None),
         spWCvMatToOpInput := Some WCvMatToOpInput,
         spWCvMatToOpOutput := Some WCvMatToOpOutput,
         spWPoses := buildPoses p f h,
         mPostProcessingWs :=
           buildPostProcessingWs p finalOutputSize (producerSizeOf i) (buildPoses p f h),
         mOutputWs := buildOutputWs fmt i out,
         spWGui := (if displayGui out then Some WGui else None)\<rparr>"
proof (cases "checkFlags p i out w")
  case (Some e')
  with assms show ?thesis by (simp add: configure_def)
next
  case None
  show ?thesis
  proof (cases "finalOutputSizeOf p i")
    case (Inl e')
    with None assms show ?thesis by (simp add: configure_def)
  next
    case (Inr fin)
    have "snd (configure fmt p f h i out w) =
       w\<lparr>mGpuNumber := gpuNumber p,
         wDatumProducer := (if producerSharedPtr i \<noteq> None then Some WDatumProducer else None),
         spWCvMatToOpInput := Some WCvMatToOpInput,
         spWCvMatToOpOutput := Some WCvMatToOpOutput,
         spWPoses := buildPoses p f h,
         mPostProcessingWs := buildPostProcessingWs p fin (producerSizeOf i) (buildPoses p f h),
         mOutputWs := buildOutputWs fmt i out,
         spWGui := (if displayGui out then Some WGui else None)\<rparr>"
      unfolding configure_def None Inr Let_def by (simp only: option.case sum.case snd_conv)
    then show ?thesis by (rule exI)
  qed
qed

lemma configure_idGenerator:
  assumes "idGeneratorOnlyInItsSlot w"
  shows "idGeneratorOnlyInItsSlot (snd (configure fmt p f h i out w))"
proof (cases "fst (configure fmt p f h i out w)")
  case (Inl e)
  with assms show ?thesis by (simp add: configure_Inl)
next
  case (Inr u)
  from configure_Inr [OF Inr] obtain fin where
    "snd (configure fmt p f h i out w) =
       w\<lparr>mGpuNumber := gpuNumber p,
         wDatumProducer := (if producerSharedPtr i \<noteq> None then Some WDatumProducer else None),
         spWCvMatToOpInput := Some WCvMatToOpInput,
         spWCvMatToOpOutput := Some WCvMatToOpOutput,
         spWPoses := buildPoses p f h,
         mPostProcessingWs := buildPostProcessingWs p fin (producerSizeOf i) (buildPoses p f h),
         mOutputWs := buildOutputWs fmt i out,
         spWGui := (if displayGui out then Some WGui else None)\<rparr>"
    by blast
  then show ?thesis
    using assms buildPoses_no_idGenerator [of p f h]
      buildWs_no_idGenerator(1) [of p fin "producerSizeOf i" "buildPoses p f h"]
      buildWs_no_idGenerator(2) [of fmt i out]
    by (simp add: idGeneratorOnlyInItsSlot_def; blast)
qed


lemma reachable_idGenerator:
  "reachable w \<Longrightarrow> idGeneratorOnlyInItsSlot w"
proof (induction rule: reachable.induct)
  case (constructed threadManagerMode gpu f1 f2 f3 tid)
  then show ?case by (simp add: idGeneratorOnlyInItsSlot_def Wrapper_new_def)
next
  case (disabled w)
  then show ?case by (simp add: idGeneratorOnlyInItsSlot_def disableMultiThreading_def)
next
  case (workerInput w worker workerOnNewThread)
  then show ?case
    by (cases worker) (simp_all add: idGeneratorOnlyInItsSlot_def setWorkerInput_def)
next
  case (workerPostProcessing w worker workerOnNewThread)
  then show ?case
    by (cases worker) (simp_all add: idGeneratorOnlyInItsSlot_def setWorkerPostProcessing_def)
next
  case (workerOutput w worker workerOnNewThread)
  then show ?case
    by (cases worker) (simp_all add: idGeneratorOnlyInItsSlot_def setWorkerOutput_def)
next
  case (configured w formatAsDirectory wrapperStructPose wrapperStructFace wrapperHandStruct
      wrapperStructInput wrapperStructOutput)
  then show ?case by (simp add: configure_idGenerator)
next
  case (graphBuilt w tmAdd)
  obtain tm t g where
    "snd (configureThreadManager tmAdd w) =
       w\<lparr>mThreadManager := tm, mThreadId := t, spWIdGenerator := g\<rparr>"
    using configureThreadManager_frame [of tmAdd w] by blast
  with graphBuilt.IH show ?case by (simp add: idGeneratorOnlyInItsSlot_def)
next
  case (managed w tm)
  then show ?case by (simp add: idGeneratorOnlyInItsSlot_def)
qed

subsection \<open>When the thread manager accepts the stages\<close>

lemma word64_less_succ:
  assumes "unat (x :: 64 word) \<le> 7"
  shows "x < x + 1"
proof -
  have "unat x + unat (1 :: 64 word) < 2 ^ LENGTH(64)" using assms by simp
  then have "unat (x + 1) = unat x + unat (1 :: 64 word)"
    by (simp only: unat_add_lem)
  then show ?thesis by (simp add: word_less_nat_alt)
qed

lemma minus_one_word32: "(- 1 :: 32 word) = 4294967295"
  by simp


lemma stageIds_True_upt: "stageIds True 0 n = map of_nat [0..<n]"
  by (rule nth_equalityI) (simp_all add: stageIds_True_nth)

lemma sorted_map_of_nat32:
  assumes "sorted ks" and "\<forall>k\<in>set ks. k < 2 ^ 32"
  shows "sorted (map (of_nat :: nat \<Rightarrow> 32 word) ks)"
proof -
  have "sorted_wrt (\<lambda>x y. (of_nat x :: 32 word) \<le> of_nat y) ks"
  proof (rule sorted_wrt_mono_rel [of ks "(\<le>)"])
    fix x y assume "x \<in> set ks" "y \<in> set ks" "x \<le> y"
    then show "(of_nat x :: 32 word) \<le> of_nat y"
      using assms(2) word32_of_nat_mono by blast
  next
    show "sorted_wrt (\<le>) ks" using assms(1) by simp
  qed
  then show ?thesis by (simp add: sorted_map)
qed

text \<open>
  The thread ids that the graph builder passes. With multi-threading enabled they do not
  decrease: the stages up to the output workers are numbered 0, 1, 2, ..., a user output
  worker gets the next number, or the last one again when it shares a thread, and the GUI
  gets the number after that. In debug mode they are all 0, except that a user output worker
  on a shared thread gets 4294967295; so they decrease exactly when the GUI comes after such
  a worker.
\<close>

lemma thread_ids_sorted_iff:
  assumes ids: "map threadId pre = stageIds (mMultiThreadEnabled w) 0 (length pre)"
    and t: "t = (bump (mMultiThreadEnabled w) ^^ length pre) 0"
    and ne: "pre \<noteq> []"
    and len: "mMultiThreadEnabled w \<longrightarrow> length pre + 1 < 2 ^ 32"
  shows "sorted (map threadId (pre @ userOutputStages w t q @ guiStages w t q)) =
     (\<not> guiAfterSharedUserOutput w)"
proof (cases "mMultiThreadEnabled w")
  case True
  define n where "n = length pre"
  have n: "0 < n" "n + 1 < 2 ^ 32"
    using ne len True by (simp_all add: n_def)
  have tn: "t = of_nat n"
    using t True by (simp add: n_def bump_funpow_True)
  define ka where "ka =
    (if mUserOutputWs w = [] then [] else [if mUserOutputWsOnNewThread w then n else n - 1])"
  define kb where "kb =
    (if spWGui w = None then []
     else [if mUserOutputWs w \<noteq> [] \<and> mUserOutputWsOnNewThread w then n + 1 else n])"
  have m1: "(of_nat n :: 32 word) - 1 = of_nat (n - 1)"
    using n(1) by (cases n) simp_all
  have 1: "map threadId pre = map of_nat [0..<n]"
    using ids True by (simp add: n_def stageIds_True_upt)
  have 2: "map threadId (userOutputStages w t q) = map of_nat ka"
    by (simp add: userOutputStages_def ka_def tn m1)
  have 3: "map threadId (guiStages w t q) = map of_nat kb"
    using True by (simp add: guiStages_def kb_def tn bump_def)
  have eq: "map threadId (pre @ userOutputStages w t q @ guiStages w t q) =
      map of_nat ([0..<n] @ ka @ kb)"
    using 1 2 3 by simp
  have s: "sorted ([0..<n] @ ka @ kb)"
    using n(1) by (auto simp: ka_def kb_def sorted_append)
  have b: "\<forall>k\<in>set ([0..<n] @ ka @ kb). k < 2 ^ 32"
    using n(2) by (auto simp: ka_def kb_def)
  have "sorted (map threadId (pre @ userOutputStages w t q @ guiStages w t q))"
    unfolding eq by (rule sorted_map_of_nat32 [OF s b])
  with True show ?thesis by (simp add: guiAfterSharedUserOutput_def)
next
  case False
  have t0: "t = 0" using t False by simp
  have 1: "map threadId pre = replicate (length pre) 0"
    using ids False by (simp add: stageIds_False)
  have 2: "map threadId (userOutputStages w t q) =
      (if mUserOutputWs w = [] then []
       else [if mUserOutputWsOnNewThread w then 0 else 4294967295])"
    by (simp add: userOutputStages_def t0)
  have 3: "map threadId (guiStages w t q) = (if spWGui w = None then [] else [0])"
    using False by (simp add: guiStages_def t0)
  have "sorted (replicate (length pre) (0 :: 32 word)
          @ (if mUserOutputWs w = [] then []
             else [if mUserOutputWsOnNewThread w then 0 else 4294967295])
          @ (if spWGui w = None then [] else [0])) =
     (\<not> guiAfterSharedUserOutput w)"
    using False by (auto simp: guiAfterSharedUserOutput_def sorted_append)
  then show ?thesis using 1 2 3 by simp
qed

lemma stages_in_before_out:
  assumes "\<forall>s\<in>set pre. queueOutId s = queueInId s + 1 \<and> unat (queueInId s) \<le> 5"
    and "unat q \<le> 6"
  shows "\<forall>s\<in>set (pre @ userOutputStages w t q @ guiStages w t q).
     queueOutId s = queueInId s + 1 \<and> queueInId s < queueOutId s"
proof -
  have q1: "unat (q + 1) \<le> 7"
    using unat_plus_le [of q 1] assms(2) by simp
  have a: "queueOutId s = queueInId s + 1 \<and> unat (queueInId s) \<le> 7"
    if "s \<in> set (pre @ userOutputStages w t q @ guiStages w t q)" for s
  proof -
    from that consider "s \<in> set pre" | "s \<in> set (userOutputStages w t q)"
      | "s \<in> set (guiStages w t q)"
      by auto
    then show ?thesis
    proof cases
      case 1
      with assms(1) show ?thesis by fastforce
    next
      case 2
      then show ?thesis using assms(2) by (auto simp: userOutputStages_def split: if_splits)
    next
      case 3
      then show ?thesis using assms(2) q1 by (auto simp: guiStages_def split: if_splits)
    qed
  qed
  show ?thesis
  proof
    fix s assume "s \<in> set (pre @ userOutputStages w t q @ guiStages w t q)"
    from a [OF this] word64_less_succ [of "queueInId s"]
    show "queueOutId s = queueInId s + 1 \<and> queueInId s < queueOutId s" by simp
  qed
qed



subsection \<open>Running the model on the concrete configurations\<close>

lemmas example_defs = exampleFormat_def examplePose_def exampleInput_def exampleOutput_def
  configureExample_def newWrapper_def

lemmas configure_defs = configure_def checkFlags_def checkOutputFlags_def savingSomething_def
  finalOutputSizeOf_def producerSizeOf_def area_def buildPoses_def emplaceBackEach_def
  emplaceBackIf_def buildPostProcessingWs_def buildOutputWs_def Let_def

lemmas wrapper_defs = Wrapper_new_def disableMultiThreading_def setWorkerInput_def
  setWorkerPostProcessing_def setWorkerOutput_def

lemmas graph_defs = configureThreadManager_def addInputStages_def inputWorkersAux_def
  addOnOwnThread_def threadIdPP_def mThreadManager_add_def tm_add_def tm_record_def
  tm_reset_def thenStage_def addPoseStages_def addPostProcessingStages_def
  addUserOutputStage_def addGuiStage_def mergeWorkers_def

lemma zero_less_minus_one_word32 [simp]: "(0 :: 32 word) < - 1"
  by (simp add: minus_one_word32)

lemma userInputTwoGpus_eq:
  "userInputTwoGpus =
     \<lparr>mThreadManagerMode = Synchronous, spVideoSeek = (False, 0),
      mThreadManager = \<lparr>mThreadWorkerQueues = [], mTQueues = []\<rparr>,
      mGpuNumber = 2, mUserInputWsOnNewThread = True,
      mUserPostProcessingWsOnNewThread = False,
      mUserOutputWsOnNewThread = False, mThreadId = 0,
      mMultiThreadEnabled = True, mUserInputWs = [Some (UserWorker 3)],
      wDatumProducer = None, spWIdGenerator = None,
      spWCvMatToOpInput = Some WCvMatToOpInput,
      spWCvMatToOpOutput = Some WCvMatToOpOutput,
      spWPoses = [[Some (WPoseExtractor 0), Some (WPoseRenderer 0)],
                  [Some (WPoseExtractor 1), Some (WPoseRenderer 1)]],
      mPostProcessingWs = [Some WQueueOrderer, Some WOpOutputToCvMat],
      mUserPostProcessingWs = [], mOutputWs = [], spWGui = Some WGui,
      mUserOutputWs = []\<rparr>"
  by (simp add: userInputTwoGpus_def example_defs configure_defs wrapper_defs upt_rec)

subsection \<open>Queue indices and thread ids of every graph\<close>

text \<open>
  Every stage of a graph writes the queue after the one it reads, and the index does not
  wrap around.
\<close>

lemma queue_indices_consecutive:
  assumes "fst (configureThreadManager (tm_addIf c) w) = Inr ()"
  shows "\<forall>s\<in>set (graph (snd (configureThreadManager (tm_addIf c) w))).
           queueOutId s = queueInId s + 1 \<and> queueInId s < queueOutId s"
proof -
  from configureThreadManager_graph [OF assms] obtain inS poseS postS t q where
    g: "graph (snd (configureThreadManager (tm_addIf c) w)) =
          inS @ poseS @ postS @ userOutputStages w t q @ guiStages w t q"
    and qs: "\<forall>s\<in>set (inS @ poseS @ postS).
          queueOutId s = queueInId s + 1 \<and> unat (queueInId s) \<le> 5"
      "unat q \<le> 6"
    by blast
  from stages_in_before_out [OF qs, of w t] show ?thesis
    unfolding g by (simp only: append_assoc)
qed

text \<open>In debug mode every stage but that of a user output worker on a shared thread has thread id 0.\<close>

lemma debug_mode_all_thread_0:
  assumes "\<not> mMultiThreadEnabled w" and "fst (configureThreadManager (tm_addIf c) w) = Inr ()"
    and "mUserOutputWs w = [] \<or> mUserOutputWsOnNewThread w"
  shows "\<forall>s\<in>set (graph (snd (configureThreadManager (tm_addIf c) w))). threadId s = 0"
proof -
  from configureThreadManager_graph [OF assms(2)] obtain inS poseS postS t q where
    g: "graph (snd (configureThreadManager (tm_addIf c) w)) =
          inS @ poseS @ postS @ userOutputStages w t q @ guiStages w t q"
       "\<not> mMultiThreadEnabled w \<longrightarrow> t = 0 \<and> (\<forall>s\<in>set (inS @ poseS @ postS). threadId s = 0)"
    by blast
  have t: "t = 0" and z: "\<forall>s\<in>set (inS @ poseS @ postS). threadId s = 0"
    using g(2) assms(1) by blast+
  have "\<forall>s\<in>set (userOutputStages w t q @ guiStages w t q). threadId s = 0"
    using assms(1,3) t by (auto simp: userOutputStages_def guiStages_def)
  with z show ?thesis unfolding g(1) by auto
qed

text \<open>\<^verbatim>\<open>threadIdPP\<close> moves the thread id only when multi-threading is enabled.\<close>

lemma threadIdPP_eq:
  "threadIdPP w =
     (if mMultiThreadEnabled w then (mThreadId w + 1, w\<lparr>mThreadId := mThreadId w + 1\<rparr>)
      else (mThreadId w, w))"
  by (simp add: threadIdPP_def)

lemma threadIdPP_disabled:
  "threadIdPP (disableMultiThreading w) = (mThreadId w, disableMultiThreading w)"
  by (simp add: threadIdPP_def disableMultiThreading_def)

text \<open>
  With multi-threading enabled the thread ids of the successive stages do not decrease. The
  number of pose replicas is bounded as a C \<^verbatim>\<open>int\<close> is.
\<close>

lemma multi_thread_ids_sorted:
  assumes "mMultiThreadEnabled w" and "fst (configureThreadManager (tm_addIf c) w) = Inr ()"
    and "length (spWPoses w) < 2 ^ 31"
  shows "sorted (map threadId (graph (snd (configureThreadManager (tm_addIf c) w))))"
proof -
  from configureThreadManager_graph [OF assms(2)] obtain inS poseS postS t q where
    g: "graph (snd (configureThreadManager (tm_addIf c) w)) =
          inS @ poseS @ postS @ userOutputStages w t q @ guiStages w t q"
    and ne: "inS \<noteq> []"
    and pu: "map units poseS = (if mMultiThreadEnabled w then spWPoses w else take 1 (spWPoses w))"
    and ids: "map threadId (inS @ poseS @ postS) =
        stageIds (mMultiThreadEnabled w) 0 (length (inS @ poseS @ postS))"
      "t = (bump (mMultiThreadEnabled w) ^^ length (inS @ poseS @ postS)) 0"
    and len: "length inS \<le> 2 \<and> length postS \<le> 3"
    by blast
  have "length poseS = length (spWPoses w)"
    using pu assms(1) by (metis length_map)
  then have lp: "mMultiThreadEnabled w \<longrightarrow> length (inS @ poseS @ postS) + 1 < 2 ^ 32"
    using len assms(3) by simp
  have pne: "inS @ poseS @ postS \<noteq> []" using ne by simp
  have "sorted (map threadId ((inS @ poseS @ postS)
      @ userOutputStages w t q @ guiStages w t q))"
    using thread_ids_sorted_iff [OF ids pne lp, of q] assms(1)
    by (simp add: guiAfterSharedUserOutput_def)
  then show ?thesis unfolding g by simp
qed

text \<open>
  The thread manager \<open>tm_record\<close> refuses nothing: with it the graph builder succeeds
  whenever its three checks pass.
\<close>

lemma configureThreadManager_record:
  "fst (configureThreadManager tm_record w) =
     (if \<not> isConfigured w then Inl (ConfigurationError msgConfigureFirst)
      else if numProducers w \<noteq> 1 \<and> \<not> asyncIngress w then Inl (ConfigurationError msgOneProducer)
      else if numConsumers w = 0 \<and> \<not> asyncEgress w then Inl (ConfigurationError msgNoOutput)
      else Inr ())"
proof (cases "isConfigured w \<and> (numProducers w = 1 \<or> asyncIngress w)
    \<and> (numConsumers w \<noteq> 0 \<or> asyncEgress w)")
  case False
  then show ?thesis by (auto simp: configureThreadManager_checks)
next
  case True
  then have c: "isConfigured w" "numProducers w = 1 \<or> asyncIngress w"
    "numConsumers w \<noteq> 0 \<or> asyncEgress w"
    by simp_all
  from configureThreadManager_adds [OF c, of "\<lambda>g s. None"]
  have "fst (configureThreadManager tm_record w) = Inr ()"
    by (auto simp: tm_record_addIf)
  with c show ?thesis by auto
qed

subsection \<open>Start, exec and reset\<close>

text \<open>When the graph builder raises, \<^verbatim>\<open>start\<close> and \<^verbatim>\<open>exec\<close> raise the same error.\<close>

lemma start_exec_raise:
  assumes "fst (configureThreadManager tmAdd w) = Inl e"
  shows "start tmAdd tmStart w = (Inl e, snd (configureThreadManager tmAdd w))"
    and "exec tmAdd tmExec w = (Inl e, snd (configureThreadManager tmAdd w))"
  using assms
  by (cases "configureThreadManager tmAdd w"; simp add: start_def exec_def)+

text \<open>
  \<^verbatim>\<open>reset\<close> empties the thread manager and every worker member but the id generator, sets
  the thread id to 0, and keeps the mode, the seek flags, the GPU number and the four flags.
\<close>

lemma reset_members:
  "graph (reset w) = [] \<and> mTQueues (mThreadManager (reset w)) = [] \<and> mThreadId (reset w) = 0
   \<and> mUserInputWs (reset w) = [] \<and> wDatumProducer (reset w) = None
   \<and> spWCvMatToOpInput (reset w) = None \<and> spWCvMatToOpOutput (reset w) = None
   \<and> spWPoses (reset w) = [] \<and> mPostProcessingWs (reset w) = []
   \<and> mUserPostProcessingWs (reset w) = [] \<and> mOutputWs (reset w) = []
   \<and> spWGui (reset w) = None \<and> mUserOutputWs (reset w) = []
   \<and> spWIdGenerator (reset w) = spWIdGenerator w
   \<and> mThreadManagerMode (reset w) = mThreadManagerMode w \<and> spVideoSeek (reset w) = spVideoSeek w
   \<and> mGpuNumber (reset w) = mGpuNumber w
   \<and> mUserInputWsOnNewThread (reset w) = mUserInputWsOnNewThread w
   \<and> mUserPostProcessingWsOnNewThread (reset w) = mUserPostProcessingWsOnNewThread w
   \<and> mUserOutputWsOnNewThread (reset w) = mUserOutputWsOnNewThread w
   \<and> mMultiThreadEnabled (reset w) = mMultiThreadEnabled w"
  by (simp add: reset_def tm_reset_def)

section \<open>The claims\<close>

subsection \<open>Boundary ports\<close>

text \<open>
  Claim C1 says that the four push operations raise whenever an internal or a user-supplied
  producer is configured, and the two pop operations whenever a consumer is configured. The
  operations only test the user's worker slots. On the asynchronous wrapper \<open>runningAsync\<close>,
  which has the internal producer and an internal output worker, \<^verbatim>\<open>tryEmplace\<close> puts the
  item 5 on the first channel and returns true, and \<^verbatim>\<open>tryPop\<close> takes the item 9 from the
  last channel: neither raises.
\<close>

theorem boundary_ports_ignore_internal_workers:
  "wDatumProducer runningAsync = Some WDatumProducer
   \<and> fst (tryEmplace tm_tryPush 5 runningAsync) = Inr True
   \<and> map items (mTQueues (mThreadManager (snd (tryEmplace tm_tryPush 5 runningAsync))))
       = [[5], [], [], [9]]
   \<and> mOutputWs runningAsync = [Some WPoseJsonSaver]
   \<and> fst (tryPop tm_tryPop runningAsync) = Inr (Some 9)
   \<and> map items (mTQueues (mThreadManager (snd (tryPop tm_tryPop runningAsync))))
       = [[], [], [], []]"
  by (simp add: runningAsync_def tryEmplace_def tryPop_def tm_tryPush_def tm_tryPop_def
      channel_tryPush_def channel_tryPop_def example_defs configure_defs wrapper_defs graph_defs)

text \<open>
  Claim C1, amended. On every call, each of \<^verbatim>\<open>tryEmplace\<close>, \<^verbatim>\<open>waitAndEmplace\<close>,
  \<^verbatim>\<open>tryPush\<close> and \<^verbatim>\<open>waitAndPush\<close> raises a ConfigurationError and leaves the wrapper
  as it is when a user input worker is configured (\<^verbatim>\<open>mUserInputWs\<close> is not empty);
  otherwise, with or without an internal producer, it hands the item to the thread manager's
  operation and returns what that returns. In the same way \<^verbatim>\<open>tryPop\<close> and
  \<^verbatim>\<open>waitAndPop\<close> raise when a user output worker is configured and otherwise forward to
  the thread manager. The thread manager's operations \<open>push\<close> and \<open>pop\<close> are arbitrary.
\<close>

theorem boundary_ports_guard_user_workers:
  "tryEmplace push tDatums w =
     (if mUserInputWs w \<noteq> [] then (Inl (ConfigurationError msgEmplace), w)
      else (fst (push tDatums (mThreadManager w)),
            w\<lparr>mThreadManager := snd (push tDatums (mThreadManager w))\<rparr>))
   \<and> waitAndEmplace push tDatums w =
     (if mUserInputWs w \<noteq> [] then (Inl (ConfigurationError msgEmplace), w)
      else (fst (push tDatums (mThreadManager w)),
            w\<lparr>mThreadManager := snd (push tDatums (mThreadManager w))\<rparr>))
   \<and> tryPush push tDatums w =
     (if mUserInputWs w \<noteq> [] then (Inl (ConfigurationError msgPush), w)
      else (fst (push tDatums (mThreadManager w)),
            w\<lparr>mThreadManager := snd (push tDatums (mThreadManager w))\<rparr>))
   \<and> waitAndPush push tDatums w =
     (if mUserInputWs w \<noteq> [] then (Inl (ConfigurationError msgPush), w)
      else (fst (push tDatums (mThreadManager w)),
            w\<lparr>mThreadManager := snd (push tDatums (mThreadManager w))\<rparr>))
   \<and> tryPop pop w =
     (if mUserOutputWs w \<noteq> [] then (Inl (ConfigurationError msgPop), w)
      else (fst (pop (mThreadManager w)), w\<lparr>mThreadManager := snd (pop (mThreadManager w))\<rparr>))
   \<and> waitAndPop pop w =
     (if mUserOutputWs w \<noteq> [] then (Inl (ConfigurationError msgPop), w)
      else (fst (pop (mThreadManager w)), w\<lparr>mThreadManager := snd (pop (mThreadManager w))\<rparr>))"
  by (simp add: tryEmplace_def waitAndEmplace_def tryPush_def waitAndPush_def tryPop_def
      waitAndPop_def split_beta)

text \<open>
  The amended claim on two wrappers: \<open>neverConfigured\<close> has a user input worker, and pushing
  raises; \<open>runningAsync\<close> has none, and the item reaches the first channel.
\<close>

theorem boundary_ports_guard_user_workers_witness:
  "tryEmplace tm_tryPush 5 neverConfigured = (Inl (ConfigurationError msgEmplace), neverConfigured)
   \<and> fst (tryPush tm_tryPush 5 runningAsync) = Inr True"
proof -
  have 1: "mUserInputWs neverConfigured \<noteq> []"
    by (simp add: neverConfigured_def example_defs wrapper_defs)
  have 2: "mUserInputWs runningAsync = []"
    by (simp add: runningAsync_def example_defs configure_defs wrapper_defs graph_defs)
  have 3: "fst (tm_tryPush 5 (mThreadManager runningAsync)) = Inr True"
    by (simp add: runningAsync_def tm_tryPush_def channel_tryPush_def example_defs
        configure_defs wrapper_defs graph_defs)
  show ?thesis
    using boundary_ports_guard_user_workers [of tm_tryPush 5 neverConfigured]
      boundary_ports_guard_user_workers [of tm_tryPush 5 runningAsync] 1 2 3
    by simp
qed

subsection \<open>One producer\<close>




subsection \<open>Consumers\<close>




subsection \<open>The reorderer\<close>

text \<open>
  Claim C4. After every successful \<^verbatim>\<open>configure\<close> there is one pose replica per GPU
  (\<^verbatim>\<open>gpuNumber\<close> of them), and the post-processing workers, which the graph builder places
  downstream of the pose replicas, contain the reorderer \<^verbatim>\<open>WQueueOrderer\<close> if and only if
  \<^verbatim>\<open>gpuNumber\<close> is greater than 1; it is then their first worker and occurs once. When the
  graph of such a wrapper is built, with the thread manager of the specification or with the
  one that records every call, the first worker behind the pose stages is the reorderer.
\<close>

theorem reorderer_iff_several_replicas:
  assumes "configure formatAsDirectory wrapperStructPose wrapperStructFace wrapperHandStruct
             wrapperStructInput wrapperStructOutput w = (Inr (), w')"
  shows "length (spWPoses w') = nat (gpuNumber wrapperStructPose)
    \<and> (Some WQueueOrderer \<in> set (mPostProcessingWs w')) = (gpuNumber wrapperStructPose > 1)
    \<and> (gpuNumber wrapperStructPose > 1 \<longrightarrow>
          (\<exists>rest. mPostProcessingWs w' = Some WQueueOrderer # rest
             \<and> Some WQueueOrderer \<notin> set rest))
    \<and> (gpuNumber wrapperStructPose > 1 \<and> (tmAdd = tm_add \<or> tmAdd = tm_record)
         \<and> fst (configureThreadManager tmAdd w') = Inr () \<longrightarrow>
          (\<exists>before poseStages after tail.
             graph (snd (configureThreadManager tmAdd w')) = before @ poseStages @ after
           \<and> map units poseStages =
               (if mMultiThreadEnabled w' then spWPoses w' else take 1 (spWPoses w'))
           \<and> concat (map units after) = Some WQueueOrderer # tail))"
proof -
  have "fst (configure formatAsDirectory wrapperStructPose wrapperStructFace wrapperHandStruct
             wrapperStructInput wrapperStructOutput w) = Inr ()"
    and s: "snd (configure formatAsDirectory wrapperStructPose wrapperStructFace wrapperHandStruct
             wrapperStructInput wrapperStructOutput w) = w'"
    using assms by simp_all
  from configure_Inr [OF this(1)] obtain finalOutputSize where
    w': "w' = w\<lparr>mGpuNumber := gpuNumber wrapperStructPose,
         wDatumProducer :=
           (if producerSharedPtr wrapperStructInput \<noteq> None then Some WDatumProducer else None),
         spWCvMatToOpInput := Some WCvMatToOpInput,
         spWCvMatToOpOutput := Some WCvMatToOpOutput,
         spWPoses := buildPoses wrapperStructPose wrapperStructFace wrapperHandStruct,
         mPostProcessingWs :=
           buildPostProcessingWs wrapperStructPose finalOutputSize
             (producerSizeOf wrapperStructInput)
             (buildPoses wrapperStructPose wrapperStructFace wrapperHandStruct),
         mOutputWs := buildOutputWs formatAsDirectory wrapperStructInput wrapperStructOutput,
         spWGui := (if displayGui wrapperStructOutput then Some WGui else None)\<rparr>"
    unfolding s by blast
  have len: "length (spWPoses w') = nat (gpuNumber wrapperStructPose)"
    unfolding w' by simp
  have post: "mPostProcessingWs w' =
      buildPostProcessingWs wrapperStructPose finalOutputSize (producerSizeOf wrapperStructInput)
        (spWPoses w')"
    unfolding w' by simp
  have 2: "(Some WQueueOrderer \<in> set (mPostProcessingWs w')) = (gpuNumber wrapperStructPose > 1)"
    unfolding post using len
    by (auto simp: buildPostProcessingWs_def emplaceBackIf_def Let_def)
  have 3: "\<exists>rest. mPostProcessingWs w' = Some WQueueOrderer # rest \<and> Some WQueueOrderer \<notin> set rest"
    if "gpuNumber wrapperStructPose > 1"
    unfolding post using len that
    by (auto simp: buildPostProcessingWs_def emplaceBackIf_def Let_def)
  have 4: "\<exists>before poseStages after tail.
             graph (snd (configureThreadManager tmAdd w')) = before @ poseStages @ after
           \<and> map units poseStages =
               (if mMultiThreadEnabled w' then spWPoses w' else take 1 (spWPoses w'))
           \<and> concat (map units after) = Some WQueueOrderer # tail"
    if g: "gpuNumber wrapperStructPose > 1" and tm: "tmAdd = tm_add \<or> tmAdd = tm_record"
      and ok: "fst (configureThreadManager tmAdd w') = Inr ()"
  proof -
    from tm obtain c where c: "tmAdd = tm_addIf c"
      using tm_add_addIf tm_record_addIf by blast
    from 3 [OF g] obtain rest where rest: "mPostProcessingWs w' = Some WQueueOrderer # rest"
      by blast
    from configureThreadManager_graph [of c w'] ok obtain inS poseS postS t q where
      h: "graph (snd (configureThreadManager tmAdd w')) =
            inS @ poseS @ postS @ userOutputStages w' t q @ guiStages w' t q"
         "map units poseS = (if mMultiThreadEnabled w' then spWPoses w' else take 1 (spWPoses w'))"
         "concat (map units postS) =
            mPostProcessingWs w' @ mUserPostProcessingWs w' @ mOutputWs w'"
      unfolding c by blast
    let ?after = "postS @ userOutputStages w' t q @ guiStages w' t q"
    have "concat (map units ?after) =
        Some WQueueOrderer # (rest @ mUserPostProcessingWs w' @ mOutputWs w'
          @ concat (map units (userOutputStages w' t q @ guiStages w' t q)))"
      using h(3) rest by simp
    with h(1,2) show ?thesis by blast
  qed
  show ?thesis using len 2 3 4 by blast
qed

text \<open>
  The claim on \<^verbatim>\<open>configure\<close> for two GPUs, after a user input worker was set: two
  replicas, and the reorderer first among the post-processing workers; in the graph, built
  with the thread manager of the specification, the reorderer is the first worker behind the
  two pose stages.
\<close>

theorem reorderer_iff_several_replicas_witness:
  "fst (configureExample 2 False True [] neverConfigured) = Inr ()
   \<and> length (spWPoses userInputTwoGpus) = 2
   \<and> Some WQueueOrderer \<in> set (mPostProcessingWs userInputTwoGpus)
   \<and> (\<exists>rest. mPostProcessingWs userInputTwoGpus = Some WQueueOrderer # rest
         \<and> Some WQueueOrderer \<notin> set rest)
   \<and> fst (configureThreadManager tm_add userInputTwoGpus) = Inr ()
   \<and> (\<exists>before poseStages after tail.
         graph (snd (configureThreadManager tm_add userInputTwoGpus)) =
           before @ poseStages @ after
       \<and> map units poseStages =
           [[Some (WPoseExtractor 0), Some (WPoseRenderer 0)],
            [Some (WPoseExtractor 1), Some (WPoseRenderer 1)]]
       \<and> concat (map units after) = Some WQueueOrderer # tail)"
proof -
  have c: "configure exampleFormat (examplePose 2) \<lparr>extractAndRenderFace = False\<rparr>
             \<lparr>extractAndRenderHands = False\<rparr> (exampleInput False) (exampleOutput True [])
             neverConfigured = (Inr (), userInputTwoGpus)"
    by (simp add: userInputTwoGpus_def neverConfigured_def example_defs configure_defs
        wrapper_defs)
  have g: "gpuNumber (examplePose 2) = 2" by (simp add: examplePose_def)
  have f: "fst (configureExample 2 False True [] neverConfigured) = Inr ()"
    using c by (simp add: configureExample_def)
  have ok: "fst (configureThreadManager tm_add userInputTwoGpus) = Inr ()"
    unfolding userInputTwoGpus_eq by (simp add: graph_defs Let_def)
  have m: "mMultiThreadEnabled userInputTwoGpus"
    "spWPoses userInputTwoGpus =
       [[Some (WPoseExtractor 0), Some (WPoseRenderer 0)],
        [Some (WPoseExtractor 1), Some (WPoseRenderer 1)]]"
    unfolding userInputTwoGpus_eq by simp_all
  note t = reorderer_iff_several_replicas [OF c, where tmAdd = tm_add]
  from t g have 1: "length (spWPoses userInputTwoGpus) = 2
     \<and> Some WQueueOrderer \<in> set (mPostProcessingWs userInputTwoGpus)
     \<and> (\<exists>rest. mPostProcessingWs userInputTwoGpus = Some WQueueOrderer # rest
           \<and> Some WQueueOrderer \<notin> set rest)"
    by simp
  from t g ok have "\<exists>before poseStages after tail.
         graph (snd (configureThreadManager tm_add userInputTwoGpus)) =
           before @ poseStages @ after
       \<and> map units poseStages =
           (if mMultiThreadEnabled userInputTwoGpus then spWPoses userInputTwoGpus
            else take 1 (spWPoses userInputTwoGpus))
       \<and> concat (map units after) = Some WQueueOrderer # tail"
    by simp
  then have 2: "\<exists>before poseStages after tail.
         graph (snd (configureThreadManager tm_add userInputTwoGpus)) =
           before @ poseStages @ after
       \<and> map units poseStages =
           [[Some (WPoseExtractor 0), Some (WPoseRenderer 0)],
            [Some (WPoseExtractor 1), Some (WPoseRenderer 1)]]
       \<and> concat (map units after) = Some WQueueOrderer # tail"
    by (simp only: m if_True)
  show ?thesis using f 1 ok 2 by blast
qed

subsection \<open>The sequencer\<close>

text \<open>
  Claim C5. Let \<open>w\<close> be a wrapper obtained from the constructor through the public
  operations, and let the graph builder succeed on it, with the thread manager of the
  specification (\<open>tm_add\<close>) or with the one that records every call (\<open>tm_record\<close>). The
  graph is a sequence of input
  stages, then the pose stages, then the remaining stages, where: the workers of the input
  stages, in order, are the ingress workers (the user's input worker, else the internal
  producer) followed directly by the id generator and the two converters; the id generator is
  in the last input stage; the pose stages are the pose replicas (all of them, or the first
  only in debug mode), each reading the queue that the last input stage writes; and the id
  generator occurs exactly once among all workers of the graph.
\<close>

theorem idGenerator_once_before_poses:
  assumes "reachable w" and "tmAdd = tm_add \<or> tmAdd = tm_record"
    and "fst (configureThreadManager tmAdd w) = Inr ()"
  shows "\<exists>inputStages poseStages laterStages.
      graph (snd (configureThreadManager tmAdd w)) = inputStages @ poseStages @ laterStages
    \<and> inputStages \<noteq> []
    \<and> concat (map units inputStages) =
        ingressWorkers w @ [Some WIdGenerator, spWCvMatToOpInput w, spWCvMatToOpOutput w]
    \<and> Some WIdGenerator \<in> set (units (last inputStages))
    \<and> map units poseStages = (if mMultiThreadEnabled w then spWPoses w else take 1 (spWPoses w))
    \<and> (\<forall>s\<in>set poseStages. queueInId s = queueOutId (last inputStages))
    \<and> count_list (concat (map units (graph (snd (configureThreadManager tmAdd w)))))
        (Some WIdGenerator) = 1"
proof -
  from assms(2) obtain c where c: "tmAdd = tm_addIf c"
    using tm_add_addIf tm_record_addIf by blast
  from configureThreadManager_graph [of c w] assms(3) obtain inS poseS postS t q where
    g: "graph (snd (configureThreadManager tmAdd w)) =
          inS @ poseS @ postS @ userOutputStages w t q @ guiStages w t q"
       "inS \<noteq> []"
       "concat (map units inS) =
          ingressWorkers w @ [Some WIdGenerator, spWCvMatToOpInput w, spWCvMatToOpOutput w]"
       "Some WIdGenerator \<in> set (units (last inS))"
       "map units poseS = (if mMultiThreadEnabled w then spWPoses w else take 1 (spWPoses w))"
       "\<forall>s\<in>set poseS. queueInId s = queueOutId (last inS)"
       "concat (map units postS) = mPostProcessingWs w @ mUserPostProcessingWs w @ mOutputWs w"
    unfolding c by blast
  let ?x = "Some WIdGenerator :: 'a TWorker"
  have inv: "?x \<notin> set (mUserInputWs w)" "wDatumProducer w \<noteq> ?x" "spWCvMatToOpInput w \<noteq> ?x"
    "spWCvMatToOpOutput w \<noteq> ?x" "?x \<notin> set (concat (spWPoses w))"
    "?x \<notin> set (mPostProcessingWs w)" "?x \<notin> set (mUserPostProcessingWs w)"
    "?x \<notin> set (mOutputWs w)" "spWGui w \<noteq> ?x" "?x \<notin> set (mUserOutputWs w)"
    using reachable_idGenerator [OF assms(1)] by (auto simp: idGeneratorOnlyInItsSlot_def)
  have c1: "count_list (concat (map units inS)) ?x = 1"
    unfolding g(3) using inv(1-4) by (auto simp: ingressWorkers_def count_list_0_iff)
  have "set (concat (take 1 (spWPoses w))) \<subseteq> set (concat (spWPoses w))"
    by (cases "spWPoses w") auto
  then have "?x \<notin> set (concat (map units poseS))"
    unfolding g(5) using inv(5) by (auto split: if_splits)
  then have c2: "count_list (concat (map units poseS)) ?x = 0"
    by (simp only: count_list_0_iff not_False_eq_True)
  have c3: "count_list (concat (map units postS)) ?x = 0"
    unfolding g(7) using inv(6-8) by (simp add: count_list_0_iff)
  have c4: "count_list (concat (map units (userOutputStages w t q))) ?x = 0"
    using inv(10) by (simp add: userOutputStages_def count_list_0_iff)
  have c5: "count_list (concat (map units (guiStages w t q))) ?x = 0"
    using inv(9) by (auto simp: guiStages_def)
  have cnt: "count_list (concat (map units (graph (snd (configureThreadManager tmAdd w))))) ?x = 1"
    unfolding g(1) using c1 c2 c3 c4 c5 by simp
  show ?thesis
    by (intro exI [of _ inS] exI [of _ poseS]
          exI [of _ "postS @ userOutputStages w t q @ guiStages w t q"])
       (use g(1-6) cnt in blast)
qed

text \<open>
  The claim on \<open>userInputTwoGpus\<close>: a user input worker on its own thread and two pose
  replicas. The id generator is in the second stage, which writes queue 2; both replicas
  read queue 2.
\<close>

theorem idGenerator_once_before_poses_witness:
  "count_list (concat (map units (graph (snd (configureThreadManager tm_add userInputTwoGpus)))))
     (Some WIdGenerator) = 1
   \<and> map (\<lambda>s. (units s, queueInId s, queueOutId s))
        (take 4 (graph (snd (configureThreadManager tm_add userInputTwoGpus)))) =
       [([Some (UserWorker 3)], 0, 1),
        ([Some WIdGenerator, Some WCvMatToOpInput, Some WCvMatToOpOutput], 1, 2),
        ([Some (WPoseExtractor 0), Some (WPoseRenderer 0)], 2, 3),
        ([Some (WPoseExtractor 1), Some (WPoseRenderer 1)], 2, 3)]"
proof -
  have r: "reachable userInputTwoGpus"
    unfolding userInputTwoGpus_def configureExample_def newWrapper_def
    by (intro reachable.intros)
  have ok: "fst (configureThreadManager tm_add userInputTwoGpus) = Inr ()"
    unfolding userInputTwoGpus_eq by (simp add: graph_defs Let_def)
  have e: "map (\<lambda>s. (units s, queueInId s, queueOutId s))
        (take 4 (graph (snd (configureThreadManager tm_add userInputTwoGpus)))) =
       [([Some (UserWorker 3)], 0, 1),
        ([Some WIdGenerator, Some WCvMatToOpInput, Some WCvMatToOpOutput], 1, 2),
        ([Some (WPoseExtractor 0), Some (WPoseRenderer 0)], 2, 3),
        ([Some (WPoseExtractor 1), Some (WPoseRenderer 1)], 2, 3)]"
    unfolding userInputTwoGpus_eq by (simp add: graph_defs Let_def)
  have tm: "(tm_add :: (nat, nat) tmAdd) = tm_add \<or> (tm_add :: (nat, nat) tmAdd) = tm_record"
    by simp
  from idGenerator_once_before_poses [OF r tm ok]
  have "count_list (concat (map units (graph (snd (configureThreadManager tm_add userInputTwoGpus)))))
     (Some WIdGenerator) = 1"
    by blast
  with e show ?thesis by simp
qed

subsection \<open>Queue indices and thread ids\<close>

text \<open>
  Claim C6 says that in every configuration the thread ids of the successive
  \<^verbatim>\<open>mThreadManager.add\<close> calls do not decrease (and that every call has an output queue
  index one above its input queue index). On \<open>singleThreadUserOutput True\<close>
  (multi-threading disabled, a user output worker with \<^verbatim>\<open>workerOnNewThread\<close> false, the
  GUI) the calls, as the recording thread manager \<open>tm_record\<close> lists them, have the queue
  indices as claimed, but the thread ids 0, 0, 0, 4294967295, 0: the user output worker gets
  \<^verbatim>\<open>mThreadId-1\<close> with \<^verbatim>\<open>mThreadId\<close> 0, and the GUI stage after it gets 0 again. The
  thread manager of the specification, \<open>tm_add\<close>, accepts the first four of these calls and
  refuses the fifth, so the graph builder raises on this configuration. (The queue indices
  are as claimed in every graph, lemma \<open>queue_indices_consecutive\<close>, and the thread ids do
  not decrease with multi-threading enabled, lemma \<open>multi_thread_ids_sorted\<close>, nor in
  debug mode without such a user output worker, lemma \<open>debug_mode_all_thread_0\<close>; lemma
  \<open>thread_ids_sorted_iff\<close> has the exact condition.)
\<close>

theorem debug_mode_thread_ids_decrease:
  "fst (configureThreadManager tm_record (singleThreadUserOutput True)) = Inr ()
   \<and> map threadId (graph (snd (configureThreadManager tm_record (singleThreadUserOutput True))))
       = [0, 0, 0, 4294967295, 0]
   \<and> \<not> sorted (map threadId
          (graph (snd (configureThreadManager tm_record (singleThreadUserOutput True)))))
   \<and> map (\<lambda>s. (queueInId s, queueOutId s))
        (graph (snd (configureThreadManager tm_record (singleThreadUserOutput True)))) =
       [(0, 1), (1, 2), (2, 3), (3, 4), (4, 5)]
   \<and> fst (configureThreadManager tm_add (singleThreadUserOutput True)) =
       Inl (ConfigurationError msgThreadOrder)
   \<and> map threadId (graph (snd (configureThreadManager tm_add (singleThreadUserOutput True))))
       = [0, 0, 0, 4294967295]"
  by (simp add: singleThreadUserOutput_def example_defs configure_defs wrapper_defs graph_defs)

subsection \<open>Debug mode\<close>

text \<open>
  Claim C7 says that after \<^verbatim>\<open>disableMultiThreading\<close> every stage is added with thread id
  0. On \<open>singleThreadUserOutput False\<close> (multi-threading disabled, a user output worker
  with \<^verbatim>\<open>workerOnNewThread\<close> false, no GUI) the stage of the user output worker is added
  with thread id 4294967295; the other stages have thread id 0, and \<^verbatim>\<open>mThreadId\<close> is
  still 0 at the end. The thread manager of the specification accepts these four stages, so
  they are all the calls, as \<open>tm_record\<close> lists them. (\<^verbatim>\<open>threadIdPP\<close> indeed leaves \<^verbatim>\<open>mThreadId\<close> alone in debug mode,
  lemma \<open>threadIdPP_disabled\<close>, only the first pose replica is added, lemma
  \<open>configureThreadManager_graph\<close>, and without a user output worker on a shared thread
  every thread id is 0, lemma \<open>debug_mode_all_thread_0\<close>.)
\<close>

theorem debug_mode_user_output_leaves_thread_0:
  "\<not> mMultiThreadEnabled (singleThreadUserOutput False)
   \<and> fst (configureThreadManager tm_add (singleThreadUserOutput False)) = Inr ()
   \<and> map (\<lambda>s. (threadId s, units s))
        (graph (snd (configureThreadManager tm_add (singleThreadUserOutput False)))) =
       [(0, [Some WDatumProducer, Some WIdGenerator, Some WCvMatToOpInput, Some WCvMatToOpOutput]),
        (0, [Some (WPoseExtractor 0), Some (WPoseRenderer 0)]),
        (0, [Some WOpOutputToCvMat]),
        (4294967295, [Some (UserWorker 7)])]
   \<and> mThreadId (snd (configureThreadManager tm_add (singleThreadUserOutput False))) = 0
   \<and> configureThreadManager tm_record (singleThreadUserOutput False) =
       configureThreadManager tm_add (singleThreadUserOutput False)"
  by (simp add: singleThreadUserOutput_def example_defs configure_defs wrapper_defs graph_defs)

subsection \<open>Reset\<close>

text \<open>
  Claim C8 says that \<^verbatim>\<open>reset\<close> leaves every worker member empty or null, the id generator
  among them. \<^verbatim>\<open>reset\<close> does not assign \<^verbatim>\<open>spWIdGenerator\<close>: after the graph of
  \<open>syncGuiJson\<close> was built, \<^verbatim>\<open>reset\<close> clears the thread manager, the thread id and all
  other worker members, and the id generator is still there. (Lemma \<open>reset_members\<close>
  lists what \<^verbatim>\<open>reset\<close> does to each member of any wrapper.)
\<close>

theorem reset_keeps_idGenerator:
  "spWIdGenerator (reset (snd (configureThreadManager tm_add syncGuiJson))) = Some WIdGenerator
   \<and> reset (snd (configureThreadManager tm_add syncGuiJson)) =
       (newWrapper Synchronous)\<lparr>mGpuNumber := 1, spWIdGenerator := Some WIdGenerator\<rparr>
   \<and> fst (configureThreadManager tm_add syncGuiJson) = Inr ()"
  by (simp add: reset_def syncGuiJson_def example_defs configure_defs wrapper_defs graph_defs)

subsection \<open>Setting a null worker\<close>

text \<open>
  Claim C9. Each of \<^verbatim>\<open>setWorkerInput\<close>, \<^verbatim>\<open>setWorkerPostProcessing\<close> and
  \<^verbatim>\<open>setWorkerOutput\<close>, called with a null worker, raises an error, and the wrapper it
  leaves behind is the one before the call with the slot of that setter emptied: the worker
  list configured before is gone, whatever it was.
\<close>

theorem setWorker_null_clears_slot:
  "setWorkerInput None b w = (Inl (ConfigurationError msgNullWorker), w\<lparr>mUserInputWs := []\<rparr>)
   \<and> setWorkerPostProcessing None b w =
       (Inl (ConfigurationError msgNullWorker), w\<lparr>mUserPostProcessingWs := []\<rparr>)
   \<and> setWorkerOutput None b w = (Inl (ConfigurationError msgNullWorker), w\<lparr>mUserOutputWs := []\<rparr>)"
  by (simp add: setWorkerInput_def setWorkerPostProcessing_def setWorkerOutput_def)

subsection \<open>The thread id of a user output worker in debug mode\<close>

text \<open>
  Claim C10. Let multi-threading be disabled, let a user output worker be configured with
  \<^verbatim>\<open>workerOnNewThread\<close> false, and let the graph builder succeed, with the thread manager
  of the specification (\<open>tm_add\<close>) or with the one that records every call
  (\<open>tm_record\<close>). Then the graph is: stages that all have thread id 0; the stage of the
  user output worker, with thread id 4294967295, which is \<open>0 - 1\<close> in 32-bit unsigned
  arithmetic and \<open>2 ^ 32 - 1\<close> as a number; and, when the GUI is configured, the GUI stage
  with thread id 0. So the user output worker has a larger thread id than every other stage.
  (With \<open>tm_add\<close> the builder only succeeds when there is no GUI, lemma
  \<open>configureThreadManager_result\<close>; the GUI stage after the user output worker is among
  the calls that \<open>tm_record\<close> lists.)
\<close>

theorem userOutput_shared_thread_id_wraps:
  assumes "\<not> mMultiThreadEnabled w" and "mUserOutputWs w \<noteq> []"
    and "\<not> mUserOutputWsOnNewThread w"
    and "tmAdd = tm_add \<or> tmAdd = tm_record"
    and "fst (configureThreadManager tmAdd w) = Inr ()"
  shows "\<exists>before q.
      graph (snd (configureThreadManager tmAdd w)) =
        before
        @ [\<lparr>threadId = 4294967295, units = mUserOutputWs w, queueInId = q, queueOutId = q + 1\<rparr>]
        @ (if spWGui w = None then []
           else [\<lparr>threadId = 0, units = [spWGui w], queueInId = q + 1, queueOutId = q + 1 + 1\<rparr>])
    \<and> (\<forall>s\<in>set before. threadId s = 0)
    \<and> (0 :: 32 word) - 1 = 4294967295
    \<and> unat (4294967295 :: 32 word) = 2 ^ 32 - 1
    \<and> (0 :: 32 word) < 4294967295"
proof -
  from assms(4) obtain c where c: "tmAdd = tm_addIf c"
    using tm_add_addIf tm_record_addIf by blast
  from configureThreadManager_graph [of c w] assms(5) obtain inS poseS postS t q where
    g: "graph (snd (configureThreadManager tmAdd w)) =
          inS @ poseS @ postS @ userOutputStages w t q @ guiStages w t q"
       "\<not> mMultiThreadEnabled w \<longrightarrow> t = 0 \<and> (\<forall>s\<in>set (inS @ poseS @ postS). threadId s = 0)"
    unfolding c by blast
  have t: "t = 0" and z: "\<forall>s\<in>set (inS @ poseS @ postS). threadId s = 0"
    using g(2) assms(1) by blast+
  have 1: "graph (snd (configureThreadManager tmAdd w)) =
        (inS @ poseS @ postS)
        @ [\<lparr>threadId = 4294967295, units = mUserOutputWs w, queueInId = q, queueOutId = q + 1\<rparr>]
        @ (if spWGui w = None then []
           else [\<lparr>threadId = 0, units = [spWGui w], queueInId = q + 1, queueOutId = q + 1 + 1\<rparr>])"
    unfolding g(1) t using assms(2,3)
    by (simp add: userOutputStages_def guiStages_def minus_one_word32)
  have 2: "unat (4294967295 :: 32 word) = 2 ^ 32 - 1" by simp
  have 3: "(0 :: 32 word) < 4294967295" by simp
  have 4: "(0 :: 32 word) - 1 = 4294967295" by simp
  show ?thesis
    by (intro exI [of _ "inS @ poseS @ postS"] exI [of _ q]) (use 1 z 2 3 4 in blast)
qed

text \<open>
  The claim on \<open>singleThreadUserOutput True\<close>, which has the GUI, with \<open>tm_record\<close>: the
  last two calls are the user output worker with thread id 4294967295 and the GUI with thread
  id 0. And on \<open>singleThreadUserOutput False\<close>, which has no GUI, with \<open>tm_add\<close>: the
  graph is built, and its last stage is the user output worker with thread id 4294967295.
\<close>

theorem userOutput_shared_thread_id_wraps_witness:
  "\<not> mMultiThreadEnabled (singleThreadUserOutput True)
   \<and> mUserOutputWs (singleThreadUserOutput True) = [Some (UserWorker 7)]
   \<and> \<not> mUserOutputWsOnNewThread (singleThreadUserOutput True)
   \<and> fst (configureThreadManager tm_record (singleThreadUserOutput True)) = Inr ()
   \<and> (\<exists>before q.
        graph (snd (configureThreadManager tm_record (singleThreadUserOutput True))) =
          before
          @ [\<lparr>threadId = 4294967295, units = [Some (UserWorker 7)], queueInId = q,
               queueOutId = q + 1\<rparr>,
             \<lparr>threadId = 0, units = [Some WGui], queueInId = q + 1, queueOutId = q + 1 + 1\<rparr>]
        \<and> list_all (\<lambda>s. threadId s = 0) before)
   \<and> \<not> mMultiThreadEnabled (singleThreadUserOutput False)
   \<and> mUserOutputWs (singleThreadUserOutput False) = [Some (UserWorker 7)]
   \<and> \<not> mUserOutputWsOnNewThread (singleThreadUserOutput False)
   \<and> fst (configureThreadManager tm_add (singleThreadUserOutput False)) = Inr ()
   \<and> (\<exists>before q.
        graph (snd (configureThreadManager tm_add (singleThreadUserOutput False))) =
          before
          @ [\<lparr>threadId = 4294967295, units = [Some (UserWorker 7)], queueInId = q,
               queueOutId = q + 1\<rparr>]
        \<and> list_all (\<lambda>s. threadId s = 0) before)"
proof -
  have a: "\<not> mMultiThreadEnabled (singleThreadUserOutput True)"
    "mUserOutputWs (singleThreadUserOutput True) = [Some (UserWorker 7)]"
    "\<not> mUserOutputWsOnNewThread (singleThreadUserOutput True)"
    "spWGui (singleThreadUserOutput True) = Some WGui"
    by (simp_all add: singleThreadUserOutput_def example_defs configure_defs wrapper_defs)
  have ne: "mUserOutputWs (singleThreadUserOutput True) \<noteq> []" using a(2) by simp
  have ok: "fst (configureThreadManager tm_record (singleThreadUserOutput True)) = Inr ()"
    by (simp add: singleThreadUserOutput_def example_defs configure_defs wrapper_defs graph_defs)
  have r: "(tm_record :: (nat, nat) tmAdd) = tm_add \<or> (tm_record :: (nat, nat) tmAdd) = tm_record"
    by simp
  from userOutput_shared_thread_id_wraps [OF a(1) ne a(3) r ok] obtain before q where
    "graph (snd (configureThreadManager tm_record (singleThreadUserOutput True))) =
        before
        @ [\<lparr>threadId = 4294967295, units = mUserOutputWs (singleThreadUserOutput True),
             queueInId = q, queueOutId = q + 1\<rparr>]
        @ (if spWGui (singleThreadUserOutput True) = None then []
           else [\<lparr>threadId = 0, units = [spWGui (singleThreadUserOutput True)],
                  queueInId = q + 1, queueOutId = q + 1 + 1\<rparr>])"
    "\<forall>s\<in>set before. threadId s = 0"
    by blast
  then have 1: "\<exists>before q.
        graph (snd (configureThreadManager tm_record (singleThreadUserOutput True))) =
          before
          @ [\<lparr>threadId = 4294967295, units = [Some (UserWorker 7)], queueInId = q,
               queueOutId = q + 1\<rparr>,
             \<lparr>threadId = 0, units = [Some WGui], queueInId = q + 1, queueOutId = q + 1 + 1\<rparr>]
        \<and> list_all (\<lambda>s. threadId s = 0) before"
    by (intro exI [of _ before] exI [of _ q]) (simp add: a list_all_iff)
  have b: "\<not> mMultiThreadEnabled (singleThreadUserOutput False)"
    "mUserOutputWs (singleThreadUserOutput False) = [Some (UserWorker 7)]"
    "\<not> mUserOutputWsOnNewThread (singleThreadUserOutput False)"
    "spWGui (singleThreadUserOutput False) = None"
    by (simp_all add: singleThreadUserOutput_def example_defs configure_defs wrapper_defs)
  have ne': "mUserOutputWs (singleThreadUserOutput False) \<noteq> []" using b(2) by simp
  have ok': "fst (configureThreadManager tm_add (singleThreadUserOutput False)) = Inr ()"
    by (simp add: singleThreadUserOutput_def example_defs configure_defs wrapper_defs graph_defs)
  have r': "(tm_add :: (nat, nat) tmAdd) = tm_add \<or> (tm_add :: (nat, nat) tmAdd) = tm_record"
    by simp
  from userOutput_shared_thread_id_wraps [OF b(1) ne' b(3) r' ok'] obtain before' q' where
    "graph (snd (configureThreadManager tm_add (singleThreadUserOutput False))) =
        before'
        @ [\<lparr>threadId = 4294967295, units = mUserOutputWs (singleThreadUserOutput False),
             queueInId = q', queueOutId = q' + 1\<rparr>]
        @ (if spWGui (singleThreadUserOutput False) = None then []
           else [\<lparr>threadId = 0, units = [spWGui (singleThreadUserOutput False)],
                  queueInId = q' + 1, queueOutId = q' + 1 + 1\<rparr>])"
    "\<forall>s\<in>set before'. threadId s = 0"
    by blast
  then have 2: "\<exists>before q.
        graph (snd (configureThreadManager tm_add (singleThreadUserOutput False))) =
          before
          @ [\<lparr>threadId = 4294967295, units = [Some (UserWorker 7)], queueInId = q,
               queueOutId = q + 1\<rparr>]
        \<and> list_all (\<lambda>s. threadId s = 0) before"
    by (intro exI [of _ before'] exI [of _ q']) (simp add: b list_all_iff)
  show ?thesis using a(1,2,3) ok 1 b(1,2,3) ok' 2 by blast
qed

end
